theory Spec2Isabelle
  imports Complex_Main "HOL-Library.Word"
begin

unbundle bit_operations_syntax

section \<open>Python strings\<close>

text \<open>
  A Python \<open>str\<close> is modelled as a \<open>string\<close> whose characters are the code points
  below 256, one \<open>char\<close> per code point. The functions of this section are the \<open>str\<close>
  methods the scraper calls, on that domain.
\<close>

text \<open>
  \<open>str.isspace\<close> on one code point: tab, line feed, vertical tab, form feed, carriage
  return, the four separators 28 to 31, space, next line (133) and no-break space (160).
\<close>

definition is_space :: "char \<Rightarrow> bool" where
  "is_space c \<longleftrightarrow> (of_char c :: nat) \<in> {9, 10, 11, 12, 13, 28, 29, 30, 31, 32, 133, 160}"

text \<open>\<open>s.split()\<close>: the maximal runs of characters that are not whitespace.\<close>

fun split_acc :: "string \<Rightarrow> string \<Rightarrow> string list" where
  "split_acc cur [] = (if cur = [] then [] else [cur])"
| "split_acc cur (c # cs) =
     (if is_space c then (if cur = [] then split_acc [] cs else cur # split_acc [] cs)
      else split_acc (cur @ [c]) cs)"

definition split :: "string \<Rightarrow> string list" where
  "split s = split_acc [] s"

text \<open>\<open>sep.join(ws)\<close>.\<close>

fun join :: "string \<Rightarrow> string list \<Rightarrow> string" where
  "join sep [] = []"
| "join sep [w] = w"
| "join sep (w # ws) = w @ sep @ join sep ws"

text \<open>\<open>s.strip()\<close>: whitespace removed at both ends.\<close>

definition strip :: "string \<Rightarrow> string" where
  "strip s = rev (dropWhile is_space (rev (dropWhile is_space s)))"

fun starts_with :: "string \<Rightarrow> string \<Rightarrow> bool" where
  "starts_with [] s = True"
| "starts_with (p # ps) [] = False"
| "starts_with (p # ps) (c # cs) = (p = c \<and> starts_with ps cs)"

text \<open>
  \<open>s.replace(old, new)\<close>: the occurrences of \<open>old\<close> are replaced from left to right,
  without overlap; \<open>skip\<close> counts the characters of a replaced occurrence still to be
  passed over. For an empty \<open>old\<close>, Python puts \<open>new\<close> before every character and at
  the end.
\<close>

fun replace_from :: "string \<Rightarrow> string \<Rightarrow> nat \<Rightarrow> string \<Rightarrow> string" where
  "replace_from old new skip [] = []"
| "replace_from old new skip (c # cs) =
     (if 0 < skip then replace_from old new (skip - 1) cs
      else if starts_with old (c # cs) then new @ replace_from old new (length old - 1) cs
      else c # replace_from old new 0 cs)"

definition replace :: "string \<Rightarrow> string \<Rightarrow> string \<Rightarrow> string" where
  "replace old new s =
     (if old = [] then new @ concat (map (\<lambda>c. c # new) s) else replace_from old new 0 s)"

text \<open>
  \<open>s.lower()\<close>: the capital letters A to Z and the capital letters of the Latin-1 block
  (192 to 222 without the multiplication sign 215) move up by 32.
\<close>

definition lower_char :: "char \<Rightarrow> char" where
  "lower_char c =
     (let n = (of_char c :: nat) in
      if (65 \<le> n \<and> n \<le> 90) \<or> (192 \<le> n \<and> n \<le> 222 \<and> n \<noteq> 215) then char_of (n + 32) else c)"

definition lower :: "string \<Rightarrow> string" where
  "lower s = map lower_char s"

text \<open>\<open>kw in s\<close> for strings: \<open>kw\<close> occurs in \<open>s\<close> as a substring.\<close>

fun contains :: "string \<Rightarrow> string \<Rightarrow> bool" where
  "contains kw [] = (kw = [])"
| "contains kw (c # cs) = (starts_with kw (c # cs) \<or> contains kw cs)"

text \<open>\<open>s.encode('utf-8')\<close>: one byte below 128, two bytes from 128 to 255.\<close>

definition utf8_char :: "char \<Rightarrow> 8 word list" where
  "utf8_char c =
     (let n = (of_char c :: nat) in
      if n < 128 then [of_nat n] else [of_nat (192 + n div 64), of_nat (128 + n mod 64)])"

definition encode_utf8 :: "string \<Rightarrow> 8 word list" where
  "encode_utf8 s = concat (map utf8_char s)"


section \<open>hashlib.md5\<close>

text \<open>
  \<open>hashlib.md5(data).hexdigest()\<close> is library code; it is modelled after the
  algorithm the library implements (RFC 1321), on 32-bit words.
\<close>

definition md5_K :: "32 word list" where
  "md5_K =
     [3614090360, 3905402710, 606105819, 3250441966,
      4118548399, 1200080426, 2821735955, 4249261313,
      1770035416, 2336552879, 4294925233, 2304563134,
      1804603682, 4254626195, 2792965006, 1236535329,
      4129170786, 3225465664, 643717713, 3921069994,
      3593408605, 38016083, 3634488961, 3889429448,
      568446438, 3275163606, 4107603335, 1163531501,
      2850285829, 4243563512, 1735328473, 2368359562,
      4294588738, 2272392833, 1839030562, 4259657740,
      2763975236, 1272893353, 4139469664, 3200236656,
      681279174, 3936430074, 3572445317, 76029189,
      3654602809, 3873151461, 530742520, 3299628645,
      4096336452, 1126891415, 2878612391, 4237533241,
      1700485571, 2399980690, 4293915773, 2240044497,
      1873313359, 4264355552, 2734768916, 1309151649,
      4149444226, 3174756917, 718787259, 3951481745]"

definition md5_S :: "nat list" where
  "md5_S =
     [7, 12, 17, 22, 7, 12, 17, 22, 7, 12, 17, 22, 7, 12, 17, 22,
      5, 9, 14, 20, 5, 9, 14, 20, 5, 9, 14, 20, 5, 9, 14, 20,
      4, 11, 16, 23, 4, 11, 16, 23, 4, 11, 16, 23, 4, 11, 16, 23,
      6, 10, 15, 21, 6, 10, 15, 21, 6, 10, 15, 21, 6, 10, 15, 21]"

definition rotl32 :: "32 word \<Rightarrow> nat \<Rightarrow> 32 word" where
  "rotl32 x n = push_bit n x OR drop_bit (32 - n) x"

text \<open>
  The padding: the byte 128, zero bytes up to 56 modulo 64, and the length of the
  message in bits as 8 bytes, least significant byte first.
\<close>

fun le_bytes :: "nat \<Rightarrow> nat \<Rightarrow> 8 word list" where
  "le_bytes 0 n = []"
| "le_bytes (Suc k) n = of_nat (n mod 256) # le_bytes k (n div 256)"

definition md5_pad :: "8 word list \<Rightarrow> 8 word list" where
  "md5_pad m =
     m @ [128] @ replicate ((55 + 64 - length m mod 64) mod 64) 0 @ le_bytes 8 (8 * length m)"

text \<open>Four bytes, least significant first, make one word.\<close>

fun words_le :: "8 word list \<Rightarrow> 32 word list" where
  "words_le (b0 # b1 # b2 # b3 # bs) =
     (ucast b0 OR push_bit 8 (ucast b1) OR push_bit 16 (ucast b2) OR push_bit 24 (ucast b3))
       # words_le bs"
| "words_le bs = []"

fun chunks :: "nat \<Rightarrow> 'a list \<Rightarrow> 'a list list" where
  "chunks 0 xs = []"
| "chunks (Suc k) xs = take 64 xs # chunks k (drop 64 xs)"

text \<open>One of the 64 operations of a block, on the state \<open>(A, B, C, D)\<close>.\<close>

definition md5_step ::
  "32 word list \<Rightarrow> 32 word \<times> 32 word \<times> 32 word \<times> 32 word \<Rightarrow> nat
   \<Rightarrow> 32 word \<times> 32 word \<times> 32 word \<times> 32 word"
where
  "md5_step M st i =
     (case st of (A, B, C, D) \<Rightarrow>
        let F = (if i < 16 then (B AND C) OR (NOT B AND D)
                 else if i < 32 then (D AND B) OR (NOT D AND C)
                 else if i < 48 then B XOR C XOR D
                 else C XOR (B OR NOT D));
            g = (if i < 16 then i
                 else if i < 32 then (5 * i + 1) mod 16
                 else if i < 48 then (3 * i + 5) mod 16
                 else (7 * i) mod 16);
            F' = F + A + md5_K ! i + M ! g
        in (D, B + rotl32 F' (md5_S ! i), B, C))"

definition md5_block ::
  "32 word \<times> 32 word \<times> 32 word \<times> 32 word \<Rightarrow> 8 word list
   \<Rightarrow> 32 word \<times> 32 word \<times> 32 word \<times> 32 word"
where
  "md5_block h block =
     (case h of (a0, b0, c0, d0) \<Rightarrow>
        case foldl (md5_step (words_le block)) h [0..<64] of
          (A, B, C, D) \<Rightarrow> (a0 + A, b0 + B, c0 + C, d0 + D))"

definition word_bytes :: "32 word \<Rightarrow> 8 word list" where
  "word_bytes x = map (\<lambda>i. ucast (drop_bit (8 * i) x)) [0..<4]"

definition md5 :: "8 word list \<Rightarrow> 8 word list" where
  "md5 m =
     (let p = md5_pad m in
      case foldl md5_block (0x67452301, 0xefcdab89, 0x98badcfe, 0x10325476)
             (chunks (length p div 64) p) of
        (a, b, c, d) \<Rightarrow> word_bytes a @ word_bytes b @ word_bytes c @ word_bytes d)"

definition hex_digit :: "nat \<Rightarrow> char" where
  "hex_digit n = (if n < 10 then char_of (48 + n) else char_of (87 + n))"

definition hexdigest :: "8 word list \<Rightarrow> string" where
  "hexdigest bs = concat (map (\<lambda>b. [hex_digit (unat b div 16), hex_digit (unat b mod 16)]) bs)"


section \<open>Configuration (scraper\_service/app/config.py)\<close>

text \<open>
  The fields of \<open>Settings\<close> that the scraping core reads. Python \<open>int\<close> fields are
  \<open>int\<close>, the two \<open>float\<close> fields (whose defaults 2.0 and 1.0 are exact) are \<open>rat\<close>,
  an \<open>Optional[str]\<close> is a \<open>string option\<close>.
\<close>

record settings =
  BACKEND_URL :: string
  BACKEND_API_KEY :: "string option"
  MAX_RETRIES :: int
  RETRY_DELAY :: int
  REQUESTS_PER_SECOND :: rat
  DOWNLOAD_DELAY :: rat
  MIN_ARTICLE_LENGTH :: int
  ALLOWED_LANGUAGES :: "string list"
  BLACKLIST_KEYWORDS :: "string list"
  CHECK_DUPLICATES_BY_URL :: bool
  CHECK_DUPLICATES_BY_TITLE :: bool
  SCRAPE_LAST_N_HOURS :: int
  BATCH_SIZE :: int

definition default_settings :: settings where
  "default_settings =
     \<lparr> BACKEND_URL = ''http://localhost:8000'',
       BACKEND_API_KEY = None,
       MAX_RETRIES = 3,
       RETRY_DELAY = 5,
       REQUESTS_PER_SECOND = 2,
       DOWNLOAD_DELAY = 1,
       MIN_ARTICLE_LENGTH = 50,
       ALLOWED_LANGUAGES = [''en''],
       BLACKLIST_KEYWORDS = [''advertisement'', ''sponsored'', ''promoted''],
       CHECK_DUPLICATES_BY_URL = True,
       CHECK_DUPLICATES_BY_TITLE = True,
       SCRAPE_LAST_N_HOURS = 24,
       BATCH_SIZE = 10 \<rparr>"

section \<open>Exceptions\<close>

text \<open>
  The exceptions the modelled code can meet. \<open>RequestException\<close> stands for the whole
  \<open>requests.RequestException\<close> family (timeouts, connection errors and the \<open>HTTPError\<close>
  of \<open>raise_for_status\<close>); \<open>HTTPError\<close> for \<open>httpx.HTTPError\<close> in the delivery task.
\<close>

datatype exn =
    RequestException
  | HTTPError
  | AttributeError
  | TypeError
  | ValueError
  | IndexError
  | OverflowError
  | RecursionError
  | OtherException

section \<open>BaseScraper.fetch\_page (scrapers/base\_scraper.py)\<close>

text \<open>
  What \<open>session.get\<close> does on one request: it returns a response with a status code and
  a body, or it raises.
\<close>

datatype outcome = Response nat string | Raises exn

text \<open>
  The observable effects of \<open>fetch_page\<close>: the requests it issues and the calls of
  \<open>time.sleep\<close>, in order.
\<close>

datatype event = Get string | Sleep rat

record world =
  requests :: nat
  trace :: "event list"

definition world0 :: world where
  "world0 = \<lparr> requests = 0, trace = [] \<rparr>"

text \<open>
  \<open>response.raise_for_status()\<close> of the requests library raises \<open>HTTPError\<close>, a
  \<open>RequestException\<close>, for every status from 400 to 599.
\<close>

definition raise_for_status :: "nat \<Rightarrow> bool" where
  "raise_for_status status \<longleftrightarrow> 400 \<le> status \<and> status < 600"

text \<open>The attempt ends in the \<open>except requests.RequestException\<close> handler.\<close>

fun request_failed :: "outcome \<Rightarrow> bool" where
  "request_failed (Response status body) = raise_for_status status"
| "request_failed (Raises e) = (e = RequestException)"

text \<open>The attempt raises something the handler does not catch.\<close>

fun escapes :: "outcome \<Rightarrow> exn option" where
  "escapes (Response status body) = None"
| "escapes (Raises e) = (if e = RequestException then None else Some e)"

fun body_of :: "outcome \<Rightarrow> string" where
  "body_of (Response status body) = body"
| "body_of (Raises e) = []"

text \<open>\<open>time.sleep(d)\<close> raises \<open>ValueError\<close> for a negative \<open>d\<close>.\<close>

definition sleep :: "rat \<Rightarrow> world \<Rightarrow> exn + world" where
  "sleep d w = (if d < 0 then Inl ValueError else Inr (w\<lparr>trace := trace w @ [Sleep d]\<rparr>))"

definition issue :: "string \<Rightarrow> world \<Rightarrow> world" where
  "issue addr w = w\<lparr>requests := Suc (requests w), trace := trace w @ [Get addr]\<rparr>"

text \<open>
  The network is a parameter: \<open>net k addr\<close> is what the \<open>k\<close>-th request of the run
  (counted from 0) does when it asks for \<open>addr\<close>. The result is the returned
  \<open>Optional[str]\<close>, or the exception that leaves \<open>fetch_page\<close>.
\<close>

function fetch_page ::
  "settings \<Rightarrow> (nat \<Rightarrow> string \<Rightarrow> outcome) \<Rightarrow> string \<Rightarrow> int \<Rightarrow> world \<Rightarrow> (exn + string option) \<times> world"
where
  "fetch_page cfg net addr retry w =
     (let out = net (requests w) addr; w1 = issue addr w in
      case escapes out of
        Some e \<Rightarrow> (Inl e, w1)
      | None \<Rightarrow>
          if \<not> request_failed out then
            (case sleep (DOWNLOAD_DELAY cfg) w1 of
               Inl e \<Rightarrow> (Inl e, w1)
             | Inr w2 \<Rightarrow> (Inr (Some (body_of out)), w2))
          else if retry < MAX_RETRIES cfg then
            (case sleep (of_int (RETRY_DELAY cfg)) w1 of
               Inl e \<Rightarrow> (Inl e, w1)
             | Inr w2 \<Rightarrow> fetch_page cfg net addr (retry + 1) w2)
          else (Inr None, w1))"
  by pat_completeness auto
termination
  by (relation "measure (\<lambda>(cfg, net, addr, retry, w). nat (MAX_RETRIES cfg - retry))") auto

declare fetch_page.simps [simp del]

text \<open>
  \<open>fetch_page\<close> above runs on an interpreter that never runs out of stack and whose
  \<open>time.sleep\<close> takes every delay that is not negative. CPython has two limits that
  \<open>fetch_page_limited\<close> adds. \<open>time.sleep\<close> counts in nanoseconds in 64 bits and raises
  \<open>OverflowError\<close> for a delay beyond that. The retry is a recursive call, and the
  interpreter raises \<open>RecursionError\<close> when the calls nest too deep: \<open>room\<close> is the
  number of nested calls of \<open>fetch_page\<close> (each with the calls it makes itself) that
  still fit under the recursion limit at the point of the call. Neither exception is a
  \<open>RequestException\<close>, so both leave \<open>fetch_page\<close>.
\<close>

definition sleep_limited :: "rat \<Rightarrow> world \<Rightarrow> exn + world" where
  "sleep_limited d w =
     (if d < 0 then Inl ValueError
      else if 9223372036854775807 < d * 1000000000 then Inl OverflowError
      else Inr (w\<lparr>trace := trace w @ [Sleep d]\<rparr>))"

fun fetch_page_limited ::
  "settings \<Rightarrow> (nat \<Rightarrow> string \<Rightarrow> outcome) \<Rightarrow> string \<Rightarrow> int \<Rightarrow> nat \<Rightarrow> world
   \<Rightarrow> (exn + string option) \<times> world"
where
  "fetch_page_limited cfg net addr retry 0 w = (Inl RecursionError, w)"
| "fetch_page_limited cfg net addr retry (Suc room) w =
     (let out = net (requests w) addr; w1 = issue addr w in
      case escapes out of
        Some e \<Rightarrow> (Inl e, w1)
      | None \<Rightarrow>
          if \<not> request_failed out then
            (case sleep_limited (DOWNLOAD_DELAY cfg) w1 of
               Inl e \<Rightarrow> (Inl e, w1)
             | Inr w2 \<Rightarrow> (Inr (Some (body_of out)), w2))
          else if retry < MAX_RETRIES cfg then
            (case sleep_limited (of_int (RETRY_DELAY cfg)) w1 of
               Inl e \<Rightarrow> (Inl e, w1)
             | Inr w2 \<Rightarrow> fetch_page_limited cfg net addr (retry + 1) room w2)
          else (Inr None, w1))"

declare fetch_page_limited.simps [simp del]

text \<open>The durations slept, in order, and the number of requests in a trace.\<close>

fun sleeps :: "event list \<Rightarrow> rat list" where
  "sleeps [] = []"
| "sleeps (Get u # es) = sleeps es"
| "sleeps (Sleep d # es) = d # sleeps es"

fun gets :: "event list \<Rightarrow> nat" where
  "gets [] = 0"
| "gets (Get u # es) = Suc (gets es)"
| "gets (Sleep d # es) = gets es"

text \<open>
  A connector that asks for several pages calls \<open>fetch_page\<close> once per page, one call
  after the other on the same session (the scraper sketched in the module's usage notes
  makes one such call); \<open>fetch_pages\<close> is that sequence of calls. A call that returns
  \<open>None\<close> is followed by the next call; an exception that leaves a call ends the
  sequence.
\<close>

fun fetch_pages ::
  "settings \<Rightarrow> (nat \<Rightarrow> string \<Rightarrow> outcome) \<Rightarrow> string list \<Rightarrow> world \<Rightarrow> (exn + string option) list \<times> world"
where
  "fetch_pages cfg net [] w = ([], w)"
| "fetch_pages cfg net (addr # urls) w =
     (case fetch_page cfg net addr 0 w of
        (Inl ex, w1) \<Rightarrow> ([Inl ex], w1)
      | (Inr page, w1) \<Rightarrow>
          (case fetch_pages cfg net urls w1 of (rs, w2) \<Rightarrow> (Inr page # rs, w2)))"

text \<open>The events a run added to the trace.\<close>

definition events_since :: "world \<Rightarrow> world \<Rightarrow> event list" where
  "events_since w w' = drop (length (trace w)) (trace w')"

text \<open>
  The enforced waiting between consecutive requests of a trace: \<open>gaps_from acc es\<close> lists,
  for every request in \<open>es\<close>, the time slept since the request before it (\<open>acc\<close> is the time
  slept so far); \<open>gaps\<close> leaves out the first request, which has no predecessor.
\<close>

fun gaps_from :: "rat \<Rightarrow> event list \<Rightarrow> rat list" where
  "gaps_from acc [] = []"
| "gaps_from acc (Sleep d # es) = gaps_from (acc + d) es"
| "gaps_from acc (Get u # es) = acc # gaps_from 0 es"

definition gaps :: "event list \<Rightarrow> rat list" where
  "gaps es = tl (gaps_from 0 es)"

text \<open>
  A trace in which every request is directly followed by a sleep of at least \<open>m\<close> seconds.
\<close>

fun polite :: "rat \<Rightarrow> event list \<Rightarrow> bool" where
  "polite m [] = True"
| "polite m (Get u # Sleep d # es) = (m \<le> d \<and> polite m es)"
| "polite m es = False"

text \<open>
  The spacing the specification asks for between two requests to one source: the
  stricter of the minimum delay and the spacing of the requests-per-second ceiling.
\<close>

definition politeness_spec :: "settings \<Rightarrow> rat" where
  "politeness_spec cfg = max (DOWNLOAD_DELAY cfg) (1 / REQUESTS_PER_SECOND cfg)"

text \<open>
  The delay the specification describes before retry \<open>k\<close> (counted from 1):
  \<open>base * 2^(k-1)\<close> plus a jitter in \<open>[0, base)\<close>.
\<close>

definition backoff_spec :: "rat \<Rightarrow> nat \<Rightarrow> rat \<Rightarrow> bool" where
  "backoff_spec base k d \<longleftrightarrow> base * 2 ^ (k - 1) \<le> d \<and> d < base * 2 ^ (k - 1) + base"

text \<open>Networks used as concrete inputs.\<close>

definition always_down :: "nat \<Rightarrow> string \<Rightarrow> outcome" where
  "always_down k addr = Raises RequestException"

definition always_404 :: "nat \<Rightarrow> string \<Rightarrow> outcome" where
  "always_404 k addr = Response 404 ''Not Found''"

definition always_up :: "nat \<Rightarrow> string \<Rightarrow> outcome" where
  "always_up k addr = Response 200 ''<html></html>''"

definition down_then_up :: "nat \<Rightarrow> string \<Rightarrow> outcome" where
  "down_then_up k addr = (if k < 4 then Raises RequestException else Response 200 ''<html></html>'')"

definition page_url :: string where
  "page_url = ''https://example.com/news''"

text \<open>A call of \<open>fetch_page\<close> that returned the page.\<close>

fun fetched :: "exn + string option \<Rightarrow> bool" where
  "fetched (Inr (Some body)) = True"
| "fetched r = False"


section \<open>Article (scrapers/base\_scraper.py)\<close>

text \<open>
  A \<open>datetime\<close> is the number of microseconds since the epoch, a \<open>timedelta\<close> a number
  of microseconds.
\<close>

type_synonym datetime = int

definition hours :: "int \<Rightarrow> int" where
  "hours h = h * 3600000000"

record Article =
  title :: string
  url :: string
  content :: string
  summary :: string
  author :: "string option"
  published_at :: datetime
  source :: string
  category :: "string option"
  image_url :: "string option"
  language :: string
  tags :: "string list"
  content_hash :: string
  scraped_at :: datetime

text \<open>
  \<open>Article._generate_hash\<close>: the hexadecimal MD5 digest of the UTF-8 bytes of title
  and URL, one after the other.
\<close>

definition generate_hash :: "Article \<Rightarrow> string" where
  "generate_hash a = hexdigest (md5 (encode_utf8 (title a @ url a)))"

text \<open>
  \<open>Article.__init__\<close>. \<open>now\<close> is what \<open>datetime.utcnow()\<close> returns while the article is
  built; \<open>published_at or datetime.utcnow()\<close> replaces a missing date, \<open>tags or []\<close> a
  missing list.
\<close>

definition Article_init ::
  "datetime \<Rightarrow> string \<Rightarrow> string \<Rightarrow> string \<Rightarrow> string \<Rightarrow> string option \<Rightarrow> datetime option
   \<Rightarrow> string \<Rightarrow> string option \<Rightarrow> string option \<Rightarrow> string \<Rightarrow> string list option \<Rightarrow> Article"
where
  "Article_init now t u c s au pub src cat img lang tgs =
     (let self = \<lparr> title = t, url = u, content = c, summary = s, author = au,
                    published_at = (case pub of Some d \<Rightarrow> d | None \<Rightarrow> now),
                    source = src, category = cat, image_url = img, language = lang,
                    tags = (case tgs of Some l \<Rightarrow> l | None \<Rightarrow> []),
                    content_hash = [], scraped_at = now \<rparr>
      in self\<lparr>content_hash := generate_hash self\<rparr>)"


section \<open>BaseScraper helpers (scrapers/base\_scraper.py)\<close>

text \<open>\<open>BaseScraper.clean_text\<close>.\<close>

definition clean_text :: "string \<Rightarrow> string" where
  "clean_text text0 =
     (let text1 = join '' '' (split text0);
          text2 = replace [CHR 0x0A, CHR 0x0A, CHR 0x0A] [CHR 0x0A, CHR 0x0A] text1
      in strip text2)"

text \<open>
  \<open>BaseScraper.detect_language\<close>. The detector of the langdetect library is a
  parameter \<open>detect\<close>; \<open>None\<close> stands for its \<open>LangDetectException\<close>.
\<close>

definition detect_language :: "(string \<Rightarrow> string option) \<Rightarrow> string \<Rightarrow> string" where
  "detect_language detect text0 = (case detect text0 of Some lang \<Rightarrow> lang | None \<Rightarrow> ''unknown'')"

text \<open>
  \<open>timedelta(hours=h)\<close>: a \<open>timedelta\<close> holds at most 999999999 days in either
  direction; beyond that the constructor raises \<open>OverflowError\<close>.
\<close>

definition timedelta_hours :: "int \<Rightarrow> exn + int" where
  "timedelta_hours h =
     (if h < - (24 * 999999999) \<or> 24 * 1000000000 \<le> h then Inl OverflowError
      else Inr (hours h))"

text \<open>
  \<open>BaseScraper.is_recent\<close>: \<open>now\<close> is what \<open>datetime.utcnow()\<close> returns, \<open>hrs\<close> the
  optional argument. The result is the truth value, or the exception of the
  \<open>timedelta\<close>.
\<close>

definition is_recent :: "settings \<Rightarrow> datetime \<Rightarrow> datetime \<Rightarrow> int option \<Rightarrow> exn + bool" where
  "is_recent cfg now published hrs =
     (let h = (case hrs of None \<Rightarrow> SCRAPE_LAST_N_HOURS cfg | Some h' \<Rightarrow> h');
          age = now - published
      in case timedelta_hours h of
           Inl ex \<Rightarrow> Inl ex
         | Inr window \<Rightarrow> Inr (age < window))"

text \<open>A word: not empty, and without whitespace.\<close>

definition solid :: "string \<Rightarrow> bool" where
  "solid w \<longleftrightarrow> w \<noteq> [] \<and> list_all (\<lambda>c. \<not> is_space c) w"


section \<open>RSSFeedScraper (scrapers/rss\_scraper.py)\<close>

text \<open>
  A value found in a parsed feed entry or in a JSON item: a string, \<open>None\<close>, or
  something else that has no string methods (a number).
\<close>

datatype pyval = Str string | NoneVal | Num int

fun truthy :: "pyval \<Rightarrow> bool" where
  "truthy (Str s) = (s \<noteq> [])"
| "truthy NoneVal = False"
| "truthy (Num n) = (n \<noteq> 0)"

text \<open>\<open>d.get(key, '')\<close> on an optional field.\<close>

definition get_or_empty :: "pyval option \<Rightarrow> pyval" where
  "get_or_empty v = (case v of None \<Rightarrow> Str [] | Some x \<Rightarrow> x)"

text \<open>
  \<open>v.strip()\<close> and \<open>self.clean_text(v)\<close> on such a value: only a string has \<open>strip\<close> and
  \<open>split\<close>; for anything else the attribute lookup raises.
\<close>

fun strip_val :: "pyval \<Rightarrow> exn + string" where
  "strip_val (Str s) = Inr (strip s)"
| "strip_val v = Inl AttributeError"

fun clean_text_val :: "pyval \<Rightarrow> exn + string" where
  "clean_text_val (Str s) = Inr (clean_text s)"
| "clean_text_val v = Inl AttributeError"

text \<open>
  The date of an entry: no date at all, a date from which \<open>datetime(...)\<close> cannot be
  built (the constructor raises), or the \<open>datetime\<close> built from it.
\<close>

datatype stamp = Missing | Invalid | At datetime

text \<open>A dictionary with string keys and values, as an association list.\<close>

type_synonym dict = "(string \<times> string) list"

text \<open>
  A feed entry. \<open>None\<close> in an optional field means that the entry does not have the
  key or attribute. \<open>e_content\<close> lists the \<open>value\<close> of each content item, \<open>e_tags\<close>
  the \<open>term\<close> of each tag (\<open>None\<close> for a tag that has none).
\<close>

record entry =
  e_title :: "pyval option"
  e_link :: "pyval option"
  e_summary :: "pyval option"
  e_description :: "pyval option"
  e_content :: "pyval list option"
  e_author :: "string option"
  e_published_parsed :: stamp
  e_media_content :: "dict list option"
  e_media_thumbnail :: "dict list option"
  e_enclosures :: "dict list option"
  e_tags :: "string option list option"

record feed =
  bozo :: bool
  entries :: "entry list"

record rss_scraper =
  source_name :: string
  feed_url :: string
  scraper_category :: "string option"

text \<open>\<open>not image_url\<close> for an \<open>Optional[str]\<close>.\<close>

definition falsy :: "string option \<Rightarrow> bool" where
  "falsy v \<longleftrightarrow> v = None \<or> v = Some []"

text \<open>The first item of a list of dictionaries, if it is there and not empty.\<close>

definition first_item :: "dict list \<Rightarrow> dict option" where
  "first_item ds = (case ds of [] \<Rightarrow> None | d # _ \<Rightarrow> if d = [] then None else Some d)"

text \<open>The loop over the enclosures: the first one of an image type decides.\<close>

fun enclosure_image :: "dict list \<Rightarrow> string option \<Rightarrow> string option" where
  "enclosure_image [] img = img"
| "enclosure_image (enc # encs) img =
     (if starts_with ''image/'' (case map_of enc ''type'' of None \<Rightarrow> [] | Some ty \<Rightarrow> ty)
      then map_of enc ''href''
      else enclosure_image encs img)"

definition entry_image :: "entry \<Rightarrow> string option" where
  "entry_image e =
     (let img0 = None;
          img1 = (case e_media_content e of
                    None \<Rightarrow> img0
                  | Some ms \<Rightarrow> (case first_item ms of None \<Rightarrow> img0 | Some m \<Rightarrow> map_of m ''url''));
          img2 = (if falsy img1 then
                    (case e_media_thumbnail e of
                       None \<Rightarrow> img1
                     | Some ts \<Rightarrow> (case first_item ts of None \<Rightarrow> img1 | Some t \<Rightarrow> map_of t ''url''))
                  else img1)
      in if falsy img2 then
           (case e_enclosures e of None \<Rightarrow> img2 | Some encs \<Rightarrow> enclosure_image encs img2)
         else img2)"

definition entry_tags :: "entry \<Rightarrow> string list" where
  "entry_tags e = (case e_tags e of None \<Rightarrow> [] | Some ts \<Rightarrow> List.map_filter id ts)"

text \<open>
  \<open>RSSFeedScraper._parse_entry\<close>. The result is the article, \<open>None\<close> for an entry that
  is left out, or the exception raised on the way. \<open>now\<close> is the time at which the entry
  is parsed.
\<close>

definition parse_entry ::
  "rss_scraper \<Rightarrow> settings \<Rightarrow> (string \<Rightarrow> string option) \<Rightarrow> datetime \<Rightarrow> entry \<Rightarrow> exn + Article option"
where
  "parse_entry self cfg detect now e =
     (case strip_val (get_or_empty (e_title e)) of
        Inl ex \<Rightarrow> Inl ex
      | Inr t \<Rightarrow>
          if t = [] then Inr None
          else
     (case strip_val (get_or_empty (e_link e)) of
        Inl ex \<Rightarrow> Inl ex
      | Inr u \<Rightarrow>
          if u = [] then Inr None
          else
     (case clean_text_val
             (if truthy (get_or_empty (e_summary e)) then get_or_empty (e_summary e)
              else get_or_empty (e_description e)) of
        Inl ex \<Rightarrow> Inl ex
      | Inr summ \<Rightarrow>
     (let c0 = (case e_content e of
                  None \<Rightarrow> Str []
                | Some items \<Rightarrow> (case items of [] \<Rightarrow> Str [] | v # _ \<Rightarrow> v));
          c1 = (if \<not> truthy c0 then Str summ else c0)
      in case clean_text_val c1 of
        Inl ex \<Rightarrow> Inl ex
      | Inr cont \<Rightarrow>
     (let published = (case e_published_parsed e of At d \<Rightarrow> d | _ \<Rightarrow> now)
      in case is_recent cfg now published None of
           Inl ex \<Rightarrow> Inl ex
         | Inr recent \<Rightarrow>
             if \<not> recent then Inr None
             else
               Inr (Some (Article_init now t u cont summ (e_author e) (Some published)
                            (source_name self) (scraper_category self) (entry_image e)
                            (detect_language detect (t @ '' '' @ cont))
                            (Some (entry_tags e)))))))))"

text \<open>
  The loop of \<open>RSSFeedScraper.scrape\<close>: an article is appended, an entry that gives
  \<open>None\<close> or raises is passed over. \<open>clock i\<close> is the time at which the entry of index
  \<open>i\<close> is parsed.
\<close>

fun scrape_loop ::
  "rss_scraper \<Rightarrow> settings \<Rightarrow> (string \<Rightarrow> string option) \<Rightarrow> (nat \<Rightarrow> datetime) \<Rightarrow> nat
   \<Rightarrow> entry list \<Rightarrow> Article list \<Rightarrow> Article list"
where
  "scrape_loop self cfg detect clock i [] articles = articles"
| "scrape_loop self cfg detect clock i (e # es) articles =
     (case parse_entry self cfg detect (clock i) e of
        Inl ex \<Rightarrow> scrape_loop self cfg detect clock (Suc i) es articles
      | Inr None \<Rightarrow> scrape_loop self cfg detect clock (Suc i) es articles
      | Inr (Some article) \<Rightarrow> scrape_loop self cfg detect clock (Suc i) es (articles @ [article]))"

text \<open>
  \<open>RSSFeedScraper.scrape\<close>. \<open>parsed\<close> is what \<open>feedparser.parse(self.feed_url)\<close> does:
  it returns the parsed feed or raises; the outer handler turns an exception into the
  empty list.
\<close>

definition scrape ::
  "rss_scraper \<Rightarrow> settings \<Rightarrow> (string \<Rightarrow> string option) \<Rightarrow> (nat \<Rightarrow> datetime) \<Rightarrow> exn + feed
   \<Rightarrow> Article list"
where
  "scrape self cfg detect clock parsed =
     (case parsed of
        Inl ex \<Rightarrow> []
      | Inr fd \<Rightarrow> scrape_loop self cfg detect clock 0 (entries fd) [])"

text \<open>The article an entry contributes to the result of \<open>scrape\<close>, if any.\<close>

fun parsed_article :: "exn + Article option \<Rightarrow> Article list" where
  "parsed_article (Inr (Some article)) = [article]"
| "parsed_article r = []"


section \<open>NewsAPIScraper (scrapers/api\_scraper.py)\<close>

text \<open>
  An item of the API's answer. \<open>None\<close> in an optional field means that the key is
  missing; \<open>i_publishedAt\<close> is \<open>Missing\<close> for a missing or empty date string, \<open>Invalid\<close>
  for one that \<open>datetime.fromisoformat\<close> rejects; \<open>i_source\<close> is the \<open>source\<close> object
  with its string entries.
\<close>

record api_item =
  i_title :: "pyval option"
  i_url :: "pyval option"
  i_description :: "pyval option"
  i_content :: "pyval option"
  i_author :: "string option"
  i_publishedAt :: stamp
  i_source :: "dict option"
  i_urlToImage :: "string option"

record api_scraper =
  api_sources :: "string list"
  api_category :: "string option"

text \<open>\<open>len(v)\<close>: defined for a string only.\<close>

fun len_val :: "pyval \<Rightarrow> exn + nat" where
  "len_val (Str s) = Inr (length s)"
| "len_val v = Inl TypeError"

text \<open>\<open>title + ' ' + v\<close>: a string can be joined to a string only.\<close>

fun concat_val :: "string \<Rightarrow> pyval \<Rightarrow> exn + string" where
  "concat_val s (Str c) = Inr (s @ c)"
| "concat_val s v = Inl TypeError"

text \<open>\<open>source_info.get('id') or source_info.get('name', 'newsapi')\<close>.\<close>

definition item_source :: "api_item \<Rightarrow> string" where
  "item_source item =
     (let source_info = (case i_source item of None \<Rightarrow> [] | Some d \<Rightarrow> d)
      in case map_of source_info ''id'' of
           Some s \<Rightarrow> if s \<noteq> [] then s
                     else (case map_of source_info ''name'' of None \<Rightarrow> ''newsapi'' | Some n \<Rightarrow> n)
         | None \<Rightarrow> (case map_of source_info ''name'' of None \<Rightarrow> ''newsapi'' | Some n \<Rightarrow> n))"

text \<open>
  \<open>NewsAPIScraper._parse_api_article\<close>. No step of it looks at the age of the item.
\<close>

definition parse_api_article ::
  "api_scraper \<Rightarrow> (string \<Rightarrow> string option) \<Rightarrow> datetime \<Rightarrow> api_item \<Rightarrow> exn + Article option"
where
  "parse_api_article self detect now item =
     (case strip_val (get_or_empty (i_title item)) of
        Inl ex \<Rightarrow> Inl ex
      | Inr t \<Rightarrow>
     (case strip_val (get_or_empty (i_url item)) of
        Inl ex \<Rightarrow> Inl ex
      | Inr u \<Rightarrow>
          if t = [] \<or> u = [] then Inr None
          else
     (let description = get_or_empty (i_description item);
          c0 = get_or_empty (i_content item)
      in case (if \<not> truthy c0 then Inr True
               else case len_val c0 of Inl ex \<Rightarrow> Inl ex | Inr n \<Rightarrow> Inr (n < 100)) of
        Inl ex \<Rightarrow> Inl ex
      | Inr short \<Rightarrow>
     (let c1 = (if short then description else c0);
          published = (case i_publishedAt item of At d \<Rightarrow> Some d | _ \<Rightarrow> None)
      in case concat_val (t @ '' '') c1 of
        Inl ex \<Rightarrow> Inl ex
      | Inr sample \<Rightarrow>
     (case clean_text_val c1 of
        Inl ex \<Rightarrow> Inl ex
      | Inr cont \<Rightarrow>
     (case clean_text_val description of
        Inl ex \<Rightarrow> Inl ex
      | Inr summ \<Rightarrow>
          Inr (Some (Article_init now (clean_text t) u cont summ (i_author item)
                       (Some (case published of Some d \<Rightarrow> d | None \<Rightarrow> now))
                       (item_source item) (api_category self) (i_urlToImage item)
                       (detect_language detect sample) None))))))))"

text \<open>
  What \<open>client.get_top_headlines\<close> does: it raises, or it returns a status and the
  items.
\<close>

datatype api_response = ApiRaises exn | ApiAnswer string "api_item list"

text \<open>
  The loop of \<open>_scrape_top_headlines\<close>. It runs inside one \<open>try\<close>: an item that raises
  ends the loop, and the articles collected so far are returned.
\<close>

fun headlines_loop ::
  "api_scraper \<Rightarrow> (string \<Rightarrow> string option) \<Rightarrow> (nat \<Rightarrow> datetime) \<Rightarrow> nat \<Rightarrow> api_item list
   \<Rightarrow> Article list \<Rightarrow> Article list"
where
  "headlines_loop self detect clock i [] articles = articles"
| "headlines_loop self detect clock i (item # items) articles =
     (case parse_api_article self detect (clock i) item of
        Inl ex \<Rightarrow> articles
      | Inr None \<Rightarrow> headlines_loop self detect clock (Suc i) items articles
      | Inr (Some article) \<Rightarrow> headlines_loop self detect clock (Suc i) items (articles @ [article]))"

definition scrape_top_headlines ::
  "api_scraper \<Rightarrow> (string \<Rightarrow> string option) \<Rightarrow> (nat \<Rightarrow> datetime) \<Rightarrow> api_response \<Rightarrow> Article list"
where
  "scrape_top_headlines self detect clock response =
     (case response of
        ApiRaises ex \<Rightarrow> []
      | ApiAnswer status items \<Rightarrow>
          if status = ''ok'' then headlines_loop self detect clock 0 items [] else [])"

text \<open>\<open>NewsAPIScraper.scrape\<close>: the top headlines only.\<close>

definition api_scrape ::
  "api_scraper \<Rightarrow> (string \<Rightarrow> string option) \<Rightarrow> (nat \<Rightarrow> datetime) \<Rightarrow> api_response \<Rightarrow> Article list"
where
  "api_scrape self detect clock response = [] @ scrape_top_headlines self detect clock response"

section \<open>Sample feeds and items\<close>

definition detect_en :: "string \<Rightarrow> string option" where
  "detect_en text0 = Some ''en''"

definition bbc :: rss_scraper where
  "bbc = \<lparr> source_name = ''bbc'', feed_url = ''http://feeds.bbci.co.uk/news/rss.xml'',
           scraper_category = None \<rparr>"

definition newsapi :: api_scraper where
  "newsapi = \<lparr> api_sources = [''bbc-news''], api_category = None \<rparr>"

text \<open>The fetch takes place at \<open>fetch_time\<close>; the entry of index \<open>i\<close> is parsed \<open>i\<close> milliseconds later.\<close>

definition fetch_time :: datetime where
  "fetch_time = 1700000000000000"

definition fetch_clock :: "nat \<Rightarrow> datetime" where
  "fetch_clock i = fetch_time + 1000 * int i"

definition days :: "int \<Rightarrow> int" where
  "days d = hours (24 * d)"

definition entry_alpha :: entry where
  "entry_alpha =
     \<lparr> e_title = Some (Str ''Alpha''), e_link = Some (Str ''https://example.com/1''),
       e_summary = Some (Str ''First story''), e_description = None, e_content = None,
       e_author = None, e_published_parsed = At (fetch_time - hours 1),
       e_media_content = None, e_media_thumbnail = None, e_enclosures = None,
       e_tags = None \<rparr>"

text \<open>An entry whose title is present but null: \<open>None.strip()\<close> raises.\<close>

definition entry_broken :: entry where
  "entry_broken = entry_alpha\<lparr> e_title := Some NoneVal, e_link := Some (Str ''https://example.com/2'') \<rparr>"

definition entry_gamma :: entry where
  "entry_gamma = entry_alpha\<lparr> e_title := Some (Str ''Gamma''), e_link := Some (Str ''https://example.com/3'') \<rparr>"

text \<open>An entry published 40 days before the fetch.\<close>

definition entry_stale :: entry where
  "entry_stale = entry_alpha\<lparr> e_title := Some (Str ''Old''), e_link := Some (Str ''https://example.com/4''),
       e_published_parsed := At (fetch_time - days 40) \<rparr>"

text \<open>An item of the API published 40 days before the fetch.\<close>

definition item_stale :: api_item where
  "item_stale =
     \<lparr> i_title = Some (Str ''Old''), i_url = Some (Str ''https://example.com/4''),
       i_description = Some (Str ''First story''), i_content = None, i_author = None,
       i_publishedAt = At (fetch_time - days 40), i_source = Some [(''id'', ''bbc-news'')],
       i_urlToImage = None \<rparr>"


section \<open>Validation (config.py, base\_scraper.py)\<close>

text \<open>
  The module-level helpers of config.py. They are functions of the module, defined
  after the class \<open>Settings\<close> and outside it.
\<close>

definition is_allowed_language :: "settings \<Rightarrow> string \<Rightarrow> bool" where
  "is_allowed_language cfg lang \<longleftrightarrow> lang \<in> set (ALLOWED_LANGUAGES cfg)"

definition is_blacklisted :: "settings \<Rightarrow> string \<Rightarrow> bool" where
  "is_blacklisted cfg t \<longleftrightarrow>
     (let title_lower = lower t in list_ex (\<lambda>keyword. contains keyword title_lower) (BLACKLIST_KEYWORDS cfg))"

text \<open>
  The attributes the class \<open>Settings\<close> declares: its 51 fields. It declares no method.
\<close>

definition settings_fields :: "string list" where
  "settings_fields =
     [''APP_NAME'', ''APP_VERSION'', ''DEBUG'', ''BACKEND_URL'', ''BACKEND_API_KEY'',
      ''ML_SERVICE_URL'', ''CELERY_BROKER_URL'', ''CELERY_RESULT_BACKEND'',
      ''CELERY_TASK_SERIALIZER'', ''CELERY_RESULT_SERIALIZER'', ''CELERY_ACCEPT_CONTENT'',
      ''CELERY_TIMEZONE'', ''CELERY_ENABLE_UTC'', ''USER_AGENT'', ''REQUEST_TIMEOUT'',
      ''MAX_RETRIES'', ''RETRY_DELAY'', ''REQUESTS_PER_SECOND'', ''CONCURRENT_REQUESTS'',
      ''DOWNLOAD_DELAY'', ''SELENIUM_HEADLESS'', ''SELENIUM_TIMEOUT'', ''CHROME_DRIVER_PATH'',
      ''RSS_FEEDS'', ''NEWS_API_KEY'', ''NEWS_API_SOURCES'', ''WEB_SCRAPE_URLS'',
      ''MIN_ARTICLE_LENGTH'', ''ALLOWED_LANGUAGES'', ''BLACKLIST_KEYWORDS'', ''EXTRACT_IMAGES'',
      ''MAX_IMAGE_SIZE_MB'', ''EXTRACT_VIDEOS'', ''IMAGES_DIR'', ''CACHE_DIR'',
      ''CHECK_DUPLICATES_BY_URL'', ''CHECK_DUPLICATES_BY_TITLE'',
      ''DUPLICATE_SIMILARITY_THRESHOLD'', ''SCRAPE_INTERVAL_MINUTES'', ''SCRAPE_LAST_N_HOURS'',
      ''SEND_TO_ML_SERVICE'', ''BATCH_SIZE'', ''DATABASE_URL'', ''LOG_LEVEL'', ''LOG_FORMAT'',
      ''LOG_FILE'', ''SENTRY_DSN'', ''USE_PROXY'', ''PROXY_URL'', ''PROXY_LIST'',
      ''SOURCE_CATEGORY_MAP'']"

text \<open>
  \<open>settings.name\<close> taken as a function to call with one string, as \<open>is_valid\<close> does with
  \<open>settings.is_allowed_language\<close> and \<open>settings.is_blacklisted\<close>: the lookup of a name
  that the instance does not have raises \<open>AttributeError\<close>, and the value of a field is
  not callable.
\<close>

definition settings_method :: "string \<Rightarrow> exn + (settings \<Rightarrow> string \<Rightarrow> bool)" where
  "settings_method name = (if name \<in> set settings_fields then Inl TypeError else Inl AttributeError)"

text \<open>\<open>Article.is_valid\<close>: a truth value, or the exception raised on the way.\<close>

definition is_valid :: "settings \<Rightarrow> Article \<Rightarrow> exn + bool" where
  "is_valid cfg self =
     (if title self = [] \<or> url self = [] then Inr False
      else
        let word_count = int (length (split (content self))) in
        if word_count < MIN_ARTICLE_LENGTH cfg then Inr False
        else
          case settings_method ''is_allowed_language'' of
            Inl ex \<Rightarrow> Inl ex
          | Inr allowed \<Rightarrow>
              if \<not> allowed cfg (language self) then Inr False
              else
                case settings_method ''is_blacklisted'' of
                  Inl ex \<Rightarrow> Inl ex
                | Inr blacklisted \<Rightarrow>
                    if blacklisted cfg (title self) then Inr False else Inr True)"

text \<open>
  The list comprehension of \<open>BaseScraper.run\<close>,
  \<open>[a for a in articles if self.validate_article(a)]\<close>: the articles are checked from
  left to right, and an exception ends the comprehension.
\<close>

fun valid_articles :: "settings \<Rightarrow> Article list \<Rightarrow> exn + Article list" where
  "valid_articles cfg [] = Inr []"
| "valid_articles cfg (a # as) =
     (case is_valid cfg a of
        Inl ex \<Rightarrow> Inl ex
      | Inr ok \<Rightarrow>
          (case valid_articles cfg as of
             Inl ex \<Rightarrow> Inl ex
           | Inr vs \<Rightarrow> Inr (if ok then a # vs else vs)))"

text \<open>
  \<open>BaseScraper.run\<close>. \<open>scraped\<close> is what \<open>self.scrape()\<close> does: it returns the articles
  or raises. Every exception ends in the handler, which returns the empty list.
\<close>

definition run :: "settings \<Rightarrow> exn + Article list \<Rightarrow> Article list" where
  "run cfg scraped =
     (case scraped of
        Inl ex \<Rightarrow> []
      | Inr articles \<Rightarrow>
          (case valid_articles cfg articles of
             Inl ex \<Rightarrow> []
           | Inr valid \<Rightarrow> valid))"

text \<open>
  The validity predicate as the checks of \<open>is_valid\<close> describe it, with the helpers of
  config.py in the place of the two calls on \<open>settings\<close>.
\<close>

definition valid_spec :: "settings \<Rightarrow> Article \<Rightarrow> bool" where
  "valid_spec cfg a \<longleftrightarrow>
     title a \<noteq> [] \<and> url a \<noteq> []
     \<and> MIN_ARTICLE_LENGTH cfg \<le> int (length (split (content a)))
     \<and> is_allowed_language cfg (language a)
     \<and> \<not> is_blacklisted cfg (title a)"

text \<open>An English article of 60 words with an unsuspicious title.\<close>

definition long_read :: Article where
  "long_read = Article_init 1700000000000000 ''Markets rally'' ''https://example.com/markets''
     (concat (replicate 60 ''word '')) ''Stocks rose.'' None (Some 1699990000000000) ''bbc''
     None None ''en'' None"



section \<open>One headline, two connectors\<close>

text \<open>
  A headline with two spaces between its words. The feed connector stores
  \<open>title.strip()\<close>, the API connector \<open>self.clean_text(title)\<close>.
\<close>

definition raw_headline :: string where
  "raw_headline = ''Breaking  News''"

definition headline_feed :: Article where
  "headline_feed = Article_init 1700000000000000 (strip raw_headline) ''https://example.com/a''
     ''The story.'' ''The story.'' None (Some 1699990000000000) ''bbc'' None None ''en'' (Some [])"

definition headline_api :: Article where
  "headline_api = Article_init 1700000300000000 (clean_text raw_headline) ''https://example.com/a''
     ''The same story, told at length.'' ''The story.'' (Some ''Staff'') (Some 1699990000000000)
     ''bbc-news'' (Some ''general'') None ''en'' None"

definition headline_api2 :: Article where
  "headline_api2 = Article_init 1700000600000000 (clean_text ''Breaking   News '')
     ''https://example.com/a'' ''Another text.'' [] None None ''cnn'' None None ''en'' None"


section \<open>deduplicate\_articles (tasks/scraping\_tasks.py)\<close>

text \<open>
  The state of the loop: the two sets of what has been seen and the list built so far.
\<close>

record dedup_state =
  seen_urls :: "string set"
  seen_hashes :: "string set"
  unique :: "Article list"

definition dedup_init :: dedup_state where
  "dedup_init = \<lparr> seen_urls = {}, seen_hashes = {}, unique = [] \<rparr>"

text \<open>
  One round of the loop. A \<open>continue\<close> leaves the round with the state as it is at that
  point: an article dropped for its hash has already recorded its URL.
\<close>

definition dedup_step :: "settings \<Rightarrow> dedup_state \<Rightarrow> Article \<Rightarrow> dedup_state" where
  "dedup_step cfg st article =
     (if CHECK_DUPLICATES_BY_URL cfg \<and> url article \<in> seen_urls st then st
      else
        let st1 = (if CHECK_DUPLICATES_BY_URL cfg
                   then st\<lparr>seen_urls := insert (url article) (seen_urls st)\<rparr> else st)
        in if CHECK_DUPLICATES_BY_TITLE cfg \<and> content_hash article \<in> seen_hashes st1 then st1
           else
             let st2 = (if CHECK_DUPLICATES_BY_TITLE cfg
                        then st1\<lparr>seen_hashes := insert (content_hash article) (seen_hashes st1)\<rparr>
                        else st1)
             in st2\<lparr>unique := unique st2 @ [article]\<rparr>)"

definition deduplicate_articles :: "settings \<Rightarrow> Article list \<Rightarrow> Article list" where
  "deduplicate_articles cfg articles = unique (foldl (dedup_step cfg) dedup_init articles)"

text \<open>What the loop keeps has pairwise different keys, and every key kept is recorded.\<close>

definition dedup_inv :: "settings \<Rightarrow> dedup_state \<Rightarrow> bool" where
  "dedup_inv cfg st \<longleftrightarrow>
     (CHECK_DUPLICATES_BY_URL cfg \<longrightarrow>
        distinct (map url (unique st)) \<and> url ` set (unique st) \<subseteq> seen_urls st) \<and>
     (CHECK_DUPLICATES_BY_TITLE cfg \<longrightarrow>
        distinct (map content_hash (unique st)) \<and> content_hash ` set (unique st) \<subseteq> seen_hashes st)"

text \<open>Two reports of one story, from two sources.\<close>

definition story_a :: Article where
  "story_a = Article_init 1700000000000000 ''Markets rally'' ''https://example.com/markets''
     ''Stocks rose on Monday.'' ''Stocks rose.'' None (Some 1699990000000000) ''bbc''
     None None ''en'' None"

definition story_b :: Article where
  "story_b = Article_init 1700000300000000 ''Markets rally'' ''https://example.com/markets''
     ''Shares climbed at the start of the week.'' [] (Some ''Staff'') None ''reuters''
     (Some ''business'') None ''en'' (Some [''markets''])"

text \<open>The settings with both duplicate checks switched off.\<close>

definition no_checks :: settings where
  "no_checks = default_settings\<lparr> CHECK_DUPLICATES_BY_URL := False, CHECK_DUPLICATES_BY_TITLE := False \<rparr>"

text \<open>
  An article whose title and URL differ from those of \<open>story_a\<close> but give the same
  string when put one after the other, and so the same hash.
\<close>

definition story_c :: Article where
  "story_c = Article_init 1700000600000000 ''Markets rallyh'' ''ttps://example.com/markets''
     ''Another text.'' [] None None ''cnn'' None None ''en'' None"


section \<open>send\_articles\_to\_backend (tasks/scraping\_tasks.py)\<close>

text \<open>
  The request one batch is posted with: the URL, the JSON payload (the batch) and the
  headers.
\<close>

record 'a request =
  req_url :: string
  req_articles :: "'a list"
  req_headers :: "(string \<times> string) list"

text \<open>
  What one \<open>client.post\<close> with \<open>raise_for_status\<close> and \<open>response.json()\<close> does: the backend
  accepts the batch and answers with a JSON object that has a \<open>created\<close> count or has
  none; or an \<open>httpx.HTTPError\<close> is raised (a transport error or an error status); or
  another exception is.
\<close>

datatype post_outcome = Accepted "int option" | HttpFailure | OtherFailure

fun accepted :: "post_outcome \<Rightarrow> bool" where
  "accepted (Accepted created) = True"
| "accepted r = False"

text \<open>
  How a run of the task ends otherwise than by returning: an exception leaves it, or
  \<open>self.retry(exc, countdown)\<close> asks the task queue to run the whole task again.
\<close>

datatype task_error = Error exn | Retry exn int

text \<open>
  \<open>[articles[i:i + batch_size] for i in range(0, len(articles), batch_size)]\<close>.
  \<open>range\<close> raises \<open>ValueError\<close> for a step of 0 and is empty for a negative step.
\<close>

definition make_batches :: "int \<Rightarrow> 'a list \<Rightarrow> exn + 'a list list" where
  "make_batches batch_size articles =
     (if batch_size = 0 then Inl ValueError
      else if batch_size < 0 then Inr []
      else let n = nat batch_size in
        Inr (map (\<lambda>k. take n (drop (k * n) articles)) [0..<(length articles + n - 1) div n]))"

definition make_request :: "settings \<Rightarrow> 'a list \<Rightarrow> 'a request" where
  "make_request cfg batch =
     \<lparr> req_url = BACKEND_URL cfg @ ''/api/v1/news/batch'',
       req_articles = batch,
       req_headers = (''Content-Type'', ''application/json'')
         # (case BACKEND_API_KEY cfg of
              None \<Rightarrow> []
            | Some k \<Rightarrow> if k = [] then [] else [(''X-API-Key'', k)]) \<rparr>"

text \<open>
  The loop over the batches. \<open>backend i req\<close> is what the \<open>i\<close>-th post of the run does;
  \<open>posted\<close> collects the requests made. An exception ends the loop: both handlers turn
  it into a retry of the task after 60 seconds.
\<close>

fun send_batches ::
  "settings \<Rightarrow> (nat \<Rightarrow> 'a request \<Rightarrow> post_outcome) \<Rightarrow> nat \<Rightarrow> 'a list list \<Rightarrow> int
   \<Rightarrow> 'a request list \<Rightarrow> (task_error + int) \<times> 'a request list"
where
  "send_batches cfg backend i [] sent_count posted = (Inr sent_count, posted)"
| "send_batches cfg backend i (batch # rest) sent_count posted =
     (case backend i (make_request cfg batch) of
        Accepted created \<Rightarrow>
          send_batches cfg backend (Suc i) rest
            (sent_count + (case created of Some c \<Rightarrow> c | None \<Rightarrow> int (length batch)))
            (posted @ [make_request cfg batch])
      | HttpFailure \<Rightarrow> (Inl (Retry HTTPError 60), posted @ [make_request cfg batch])
      | OtherFailure \<Rightarrow> (Inl (Retry OtherException 60), posted @ [make_request cfg batch]))"

definition send_articles_to_backend ::
  "settings \<Rightarrow> (nat \<Rightarrow> 'a request \<Rightarrow> post_outcome) \<Rightarrow> 'a list
   \<Rightarrow> (task_error + int) \<times> 'a request list"
where
  "send_articles_to_backend cfg backend articles =
     (if articles = [] then (Inr 0, [])
      else case make_batches (BATCH_SIZE cfg) articles of
             Inl e \<Rightarrow> (Inl (Error e), [])
           | Inr batches \<Rightarrow> send_batches cfg backend 0 batches 0 [])"

text \<open>The exception a post that is not accepted raises.\<close>

fun raised_by :: "post_outcome \<Rightarrow> exn" where
  "raised_by HttpFailure = HTTPError"
| "raised_by r = OtherException"

text \<open>A backend that fails the second post of every run and accepts the others.\<close>

definition second_fails :: "nat \<Rightarrow> nat request \<Rightarrow> post_outcome" where
  "second_fails i req = (if i = 1 then HttpFailure else Accepted None)"

text \<open>
  What the specification says of the job of three batches whose second batch fails: the
  run ends with \<open>sent\<close> articles counted, and the third batch has been posted.
\<close>

definition isolation_spec :: "(task_error + int) \<times> nat request list \<Rightarrow> nat list list \<Rightarrow> bool" where
  "isolation_spec outcome batches \<longleftrightarrow>
     fst outcome = Inr (int (length (batches ! 0)) + int (length (batches ! 2)))
     \<and> batches ! 2 \<in> set (map req_articles (snd outcome))"


section \<open>Properties of fetch\_page\<close>

lemma fetch_page_retry_step:
  assumes "request_failed (net (requests w) addr)" and "retry < MAX_RETRIES cfg"
    and "0 \<le> RETRY_DELAY cfg"
  shows "fetch_page cfg net addr retry w =
         fetch_page cfg net addr (retry + 1)
           (w\<lparr>requests := Suc (requests w),
              trace := trace w @ [Get addr, Sleep (of_int (RETRY_DELAY cfg))]\<rparr>)"
proof -
  have "escapes (net (requests w) addr) = None"
    using assms(1) by (cases "net (requests w) addr") auto
  then show ?thesis
    using assms by (subst fetch_page.simps) (simp add: Let_def sleep_def issue_def)
qed

lemma fetch_page_exhausted:
  assumes "request_failed (net (requests w) addr)" and "\<not> retry < MAX_RETRIES cfg"
  shows "fetch_page cfg net addr retry w = (Inr None, issue addr w)"
proof -
  have "escapes (net (requests w) addr) = None"
    using assms(1) by (cases "net (requests w) addr") auto
  then show ?thesis
    using assms by (subst fetch_page.simps) (simp add: Let_def)
qed

lemma fetch_page_success:
  assumes "net (requests w) addr = Response status body" and "\<not> raise_for_status status"
    and "0 \<le> DOWNLOAD_DELAY cfg"
  shows "fetch_page cfg net addr retry w =
         (Inr (Some body),
          w\<lparr>requests := Suc (requests w),
            trace := trace w @ [Get addr, Sleep (DOWNLOAD_DELAY cfg)]\<rparr>)"
  using assms by (subst fetch_page.simps) (simp add: Let_def sleep_def issue_def)

text \<open>
  While the attempts fail and retries are left, each failed attempt costs one request
  and one sleep of \<open>RETRY_DELAY\<close>.
\<close>

lemma fetch_page_failures:
  assumes "\<forall>i<n. request_failed (net (requests w + i) addr)"
    and "retry + int n \<le> MAX_RETRIES cfg" and "0 \<le> RETRY_DELAY cfg"
  shows "fetch_page cfg net addr retry w =
         fetch_page cfg net addr (retry + int n)
           (w\<lparr>requests := requests w + n,
              trace := trace w @ concat (replicate n [Get addr, Sleep (of_int (RETRY_DELAY cfg))])\<rparr>)"
  using assms
proof (induction n arbitrary: retry w)
  case 0
  then show ?case by simp
next
  case (Suc n)
  let ?w = "w\<lparr>requests := Suc (requests w),
              trace := trace w @ [Get addr, Sleep (of_int (RETRY_DELAY cfg))]\<rparr>"
  have f0: "request_failed (net (requests w) addr)"
    using Suc.prems(1) by (metis add.right_neutral zero_less_Suc)
  have step: "fetch_page cfg net addr retry w = fetch_page cfg net addr (retry + 1) ?w"
    using f0 Suc.prems by (intro fetch_page_retry_step) auto
  have rest: "\<forall>i<n. request_failed (net (requests ?w + i) addr)"
  proof (intro allI impI)
    fix i assume "i < n"
    then have "request_failed (net (requests w + Suc i) addr)"
      using Suc.prems(1) by auto
    then show "request_failed (net (requests ?w + i) addr)" by simp
  qed
  have "fetch_page cfg net addr (retry + 1) ?w =
        fetch_page cfg net addr (retry + 1 + int n)
          (?w\<lparr>requests := requests ?w + n,
              trace := trace ?w @ concat (replicate n [Get addr, Sleep (of_int (RETRY_DELAY cfg))])\<rparr>)"
    using rest Suc.prems by (intro Suc.IH) auto
  with step show ?case by (simp add: algebra_simps)
qed

lemma sleeps_append: "sleeps (xs @ ys) = sleeps xs @ sleeps ys"
  by (induction xs rule: sleeps.induct) auto

lemma sleeps_retries: "sleeps (concat (replicate n [Get u, Sleep d])) = replicate n d"
  by (induction n) auto

lemma gets_append: "gets (xs @ ys) = gets xs + gets ys"
  by (induction xs rule: gets.induct) auto

text \<open>\<open>fetch_page\<close> only appends to the trace.\<close>

lemma fetch_page_extends:
  "\<exists>es. trace (snd (fetch_page cfg net addr retry w)) = trace w @ es"
proof (induction cfg net addr retry w rule: fetch_page.induct)
  case (1 cfg net addr retry w)
  show ?case
  proof (cases "escapes (net (requests w) addr) = None \<and> request_failed (net (requests w) addr)
                \<and> retry < MAX_RETRIES cfg \<and> \<not> of_int (RETRY_DELAY cfg) < (0::rat)")
    case True
    let ?w2 = "issue addr w\<lparr>trace := trace (issue addr w) @ [Sleep (of_int (RETRY_DELAY cfg))]\<rparr>"
    have eq: "fetch_page cfg net addr retry w = fetch_page cfg net addr (retry + 1) ?w2"
      using True by (subst fetch_page.simps) (simp add: Let_def sleep_def)
    have "sleep (of_int (RETRY_DELAY cfg)) (issue addr w) = Inr ?w2"
      using True by (simp add: sleep_def)
    with True "1.IH" [of "net (requests w) addr" "issue addr w" ?w2]
    obtain es where "trace (snd (fetch_page cfg net addr (retry + 1) ?w2)) = trace ?w2 @ es"
      by auto
    with eq show ?thesis by (simp add: issue_def)
  next
    case False
    then show ?thesis
      by (subst fetch_page.simps)
         (auto simp: Let_def sleep_def issue_def split: option.splits sum.splits)
  qed
qed


text \<open>
  On the interpreter without limits: an operation that fails on every attempt is asked
  for \<open>MAX_RETRIES + 1\<close> times, with a sleep of \<open>RETRY_DELAY\<close> before each retry, and
  the result is \<open>None\<close>.
\<close>

lemma fetch_page_all_fail:
  assumes "\<forall>k. request_failed (net k addr)"
    and "0 \<le> MAX_RETRIES cfg" and "0 \<le> RETRY_DELAY cfg"
  shows "fetch_page cfg net addr 0 w =
         (Inr None,
          w\<lparr>requests := requests w + nat (MAX_RETRIES cfg) + 1,
            trace := trace w
              @ concat (replicate (nat (MAX_RETRIES cfg)) [Get addr, Sleep (of_int (RETRY_DELAY cfg))])
              @ [Get addr]\<rparr>)"
proof -
  let ?n = "nat (MAX_RETRIES cfg)"
  let ?w = "w\<lparr>requests := requests w + ?n,
              trace := trace w @ concat (replicate ?n [Get addr, Sleep (of_int (RETRY_DELAY cfg))])\<rparr>"
  have "fetch_page cfg net addr 0 w = fetch_page cfg net addr (0 + int ?n) ?w"
    using assms by (intro fetch_page_failures) auto
  also have "\<dots> = (Inr None, issue addr ?w)"
    using assms by (intro fetch_page_exhausted) auto
  finally show ?thesis by (simp add: issue_def)
qed

text \<open>
  Where the limits are not reached the two functions agree: the nested calls still to
  come fit in the room, and both delays are within what \<open>time.sleep\<close> takes.
\<close>

lemma sleep_limited_sleep:
  "d * 1000000000 \<le> 9223372036854775807 \<Longrightarrow> sleep_limited d w = sleep d w"
  by (simp add: sleep_limited_def sleep_def)

lemma fetch_page_limited_eq:
  assumes "nat (MAX_RETRIES cfg - retry) < room"
    and "DOWNLOAD_DELAY cfg * 1000000000 \<le> 9223372036854775807"
    and "of_int (RETRY_DELAY cfg) * (1000000000::rat) \<le> 9223372036854775807"
  shows "fetch_page_limited cfg net addr retry room w = fetch_page cfg net addr retry w"
  using assms(1)
proof (induction room arbitrary: retry w)
  case 0
  then show ?case by simp
next
  case (Suc room)
  show ?case
  proof (cases "retry < MAX_RETRIES cfg")
    case True
    with Suc.prems have "nat (MAX_RETRIES cfg - (retry + 1)) < room" by arith
    then have ih: "\<And>w'. fetch_page_limited cfg net addr (retry + 1) room w'
                      = fetch_page cfg net addr (retry + 1) w'"
      by (rule Suc.IH)
    show ?thesis
      by (subst fetch_page_limited.simps, subst fetch_page.simps)
         (simp add: Let_def sleep_limited_sleep assms(2,3) ih split: option.splits sum.splits)
  next
    case False
    then show ?thesis
      by (subst fetch_page_limited.simps, subst fetch_page.simps)
         (simp add: Let_def sleep_limited_sleep assms(2,3) split: option.splits sum.splits)
  qed
qed

text \<open>
  With the limits: each failed attempt that is retried costs one request, one sleep of
  \<open>RETRY_DELAY\<close> and one level of nesting.
\<close>

lemma fetch_page_limited_failures:
  assumes "\<forall>i<n. request_failed (net (requests w + i) addr)"
    and "retry + int n \<le> MAX_RETRIES cfg" and "0 \<le> RETRY_DELAY cfg"
    and "of_int (RETRY_DELAY cfg) * (1000000000::rat) \<le> 9223372036854775807"
    and "n \<le> room"
  shows "fetch_page_limited cfg net addr retry room w =
         fetch_page_limited cfg net addr (retry + int n) (room - n)
           (w\<lparr>requests := requests w + n,
              trace := trace w @ concat (replicate n [Get addr, Sleep (of_int (RETRY_DELAY cfg))])\<rparr>)"
  using assms(1,2,5)
proof (induction n arbitrary: retry room w)
  case 0
  then show ?case by simp
next
  case (Suc n)
  from Suc.prems(3) obtain room' where room: "room = Suc room'" "n \<le> room'"
    by (cases room) auto
  let ?w = "w\<lparr>requests := Suc (requests w),
              trace := trace w @ [Get addr, Sleep (of_int (RETRY_DELAY cfg))]\<rparr>"
  have f0: "request_failed (net (requests w) addr)"
    using Suc.prems(1) by (metis add.right_neutral zero_less_Suc)
  then have e0: "escapes (net (requests w) addr) = None"
    by (cases "net (requests w) addr") auto
  have "retry < MAX_RETRIES cfg" using Suc.prems(2) by simp
  with f0 e0 assms(3,4)
  have step: "fetch_page_limited cfg net addr retry (Suc room') w =
              fetch_page_limited cfg net addr (retry + 1) room' ?w"
    by (subst fetch_page_limited.simps) (simp add: Let_def sleep_limited_def issue_def)
  have rest: "\<forall>i<n. request_failed (net (requests ?w + i) addr)"
  proof (intro allI impI)
    fix i assume "i < n"
    then have "request_failed (net (requests w + Suc i) addr)"
      using Suc.prems(1) by auto
    then show "request_failed (net (requests ?w + i) addr)" by simp
  qed
  have "fetch_page_limited cfg net addr (retry + 1) room' ?w =
        fetch_page_limited cfg net addr (retry + 1 + int n) (room' - n)
          (?w\<lparr>requests := requests ?w + n,
              trace := trace ?w @ concat (replicate n [Get addr, Sleep (of_int (RETRY_DELAY cfg))])\<rparr>)"
    using rest Suc.prems(2) room(2) by (intro Suc.IH) auto
  with step room show ?case by (simp add: algebra_simps)
qed

text \<open>
  When the nesting is used up while retries are left, \<open>RecursionError\<close> leaves the call
  after as many requests as there was room for.
\<close>

lemma fetch_page_limited_recursion_error:
  assumes "\<forall>k. request_failed (net k addr)"
    and "int room \<le> MAX_RETRIES cfg" and "0 \<le> RETRY_DELAY cfg"
    and "of_int (RETRY_DELAY cfg) * (1000000000::rat) \<le> 9223372036854775807"
  shows "fetch_page_limited cfg net addr 0 room w =
         (Inl RecursionError,
          w\<lparr>requests := requests w + room,
            trace := trace w
              @ concat (replicate room [Get addr, Sleep (of_int (RETRY_DELAY cfg))])\<rparr>)"
proof -
  have "fetch_page_limited cfg net addr 0 room w =
        fetch_page_limited cfg net addr (0 + int room) (room - room)
          (w\<lparr>requests := requests w + room,
             trace := trace w
               @ concat (replicate room [Get addr, Sleep (of_int (RETRY_DELAY cfg))])\<rparr>)"
    using assms by (intro fetch_page_limited_failures) auto
  then show ?thesis by (simp add: fetch_page_limited.simps)
qed

text \<open>
  C2 (as amended). Let the operation fail on every attempt, let \<open>RETRY_DELAY\<close> be a
  delay that \<open>time.sleep\<close> takes (not negative, below \<open>2^63\<close> nanoseconds) and let the
  \<open>MAX_RETRIES + 1\<close> nested calls fit under the recursion limit. Then the operation
  is asked for exactly \<open>MAX_RETRIES + 1\<close> times (the first attempt and \<open>MAX_RETRIES\<close>
  retries, each after a sleep of \<open>RETRY_DELAY\<close>), and \<open>fetch_page\<close> returns \<open>None\<close>:
  it does not raise.
\<close>

theorem fetch_page_always_failing:
  assumes "\<forall>k. request_failed (net k addr)"
    and "0 \<le> MAX_RETRIES cfg" and "0 \<le> RETRY_DELAY cfg"
    and "of_int (RETRY_DELAY cfg) * (1000000000::rat) \<le> 9223372036854775807"
    and "nat (MAX_RETRIES cfg) < room"
  shows "fetch_page_limited cfg net addr 0 room w =
         (Inr None,
          w\<lparr>requests := requests w + nat (MAX_RETRIES cfg) + 1,
            trace := trace w
              @ concat (replicate (nat (MAX_RETRIES cfg)) [Get addr, Sleep (of_int (RETRY_DELAY cfg))])
              @ [Get addr]\<rparr>)"
proof -
  let ?n = "nat (MAX_RETRIES cfg)"
  let ?w = "w\<lparr>requests := requests w + ?n,
              trace := trace w @ concat (replicate ?n [Get addr, Sleep (of_int (RETRY_DELAY cfg))])\<rparr>"
  obtain r where r: "room - ?n = Suc r"
    using assms(5) by (cases "room - ?n") auto
  have f: "request_failed (net (requests ?w) addr)" using assms(1) by blast
  then have e: "escapes (net (requests ?w) addr) = None"
    by (cases "net (requests ?w) addr") auto
  have "fetch_page_limited cfg net addr 0 room w =
        fetch_page_limited cfg net addr (0 + int ?n) (room - ?n) ?w"
    using assms by (intro fetch_page_limited_failures) auto
  also have "\<dots> = (Inr None, issue addr ?w)"
    unfolding r using f e assms(2)
    by (subst fetch_page_limited.simps) (simp add: Let_def)
  finally show ?thesis by (simp add: issue_def)
qed

theorem fetch_page_always_failing_witness:
  "(\<forall>k. request_failed (always_down k page_url))
   \<and> 0 \<le> MAX_RETRIES default_settings \<and> 0 \<le> RETRY_DELAY default_settings
   \<and> of_int (RETRY_DELAY default_settings) * (1000000000::rat) \<le> 9223372036854775807
   \<and> nat (MAX_RETRIES default_settings) < 900
   \<and> fetch_page_limited default_settings always_down page_url 0 900 world0 =
       (Inr None,
        \<lparr>requests = 4,
         trace = [Get page_url, Sleep 5, Get page_url, Sleep 5, Get page_url, Sleep 5,
                  Get page_url]\<rparr>)"
proof -
  have h1: "\<forall>k. request_failed (always_down k page_url)"
    by (simp add: always_down_def)
  have h2: "0 \<le> MAX_RETRIES default_settings" and h3: "0 \<le> RETRY_DELAY default_settings"
    and h4: "of_int (RETRY_DELAY default_settings) * (1000000000::rat) \<le> 9223372036854775807"
    and h5: "nat (MAX_RETRIES default_settings) < 900"
    by (simp_all add: default_settings_def)
  have n: "nat (MAX_RETRIES default_settings) = Suc (Suc (Suc 0))"
    by (simp add: default_settings_def)
  show ?thesis
    using h1 h2 h3 h4 h5
      fetch_page_always_failing [where net = always_down and addr = page_url
        and cfg = default_settings and w = world0 and room = 900, OF h1 h2 h3 h4 h5]
    by (simp add: n) (simp add: default_settings_def world0_def)
qed

text \<open>
  The claim as the specification states it (exactly \<open>MAX_RETRIES\<close> calls, then an
  error is raised) fails for a source that is down, with room for 900 nested calls: four
  requests, and \<open>None\<close>.
\<close>

theorem fetch_page_retry_bound_counterexample:
  "requests (snd (fetch_page_limited default_settings always_down page_url 0 900 world0))
     \<noteq> nat (MAX_RETRIES default_settings)
   \<and> requests (snd (fetch_page_limited default_settings always_down page_url 0 900 world0)) = 4
   \<and> fst (fetch_page_limited default_settings always_down page_url 0 900 world0) = Inr None"
  by code_simp

text \<open>
  C4 (as amended). The delay before every retry is the constant \<open>RETRY_DELAY\<close>: when the
  first \<open>n\<close> attempts fail, the \<open>k\<close>-th sleep of the call, for every \<open>k\<close> from 1
  to \<open>n\<close>, lasts \<open>RETRY_DELAY\<close> seconds. It does not grow with \<open>k\<close> and has no jitter.
\<close>

theorem fetch_page_retry_delay_constant:
  assumes "\<forall>i<n. request_failed (net (requests w + i) addr)"
    and "int n \<le> MAX_RETRIES cfg" and "0 \<le> RETRY_DELAY cfg"
    and "1 \<le> k" and "k \<le> n"
  shows "sleeps (events_since w (snd (fetch_page cfg net addr 0 w))) ! (k - 1)
         = of_int (RETRY_DELAY cfg)"
proof -
  let ?rs = "concat (replicate n [Get addr, Sleep (of_int (RETRY_DELAY cfg))])"
  let ?w = "w\<lparr>requests := requests w + n, trace := trace w @ ?rs\<rparr>"
  have "fetch_page cfg net addr 0 w = fetch_page cfg net addr (0 + int n) ?w"
    using assms by (intro fetch_page_failures) auto
  moreover obtain es where "trace (snd (fetch_page cfg net addr (0 + int n) ?w)) = trace ?w @ es"
    using fetch_page_extends by blast
  ultimately have "events_since w (snd (fetch_page cfg net addr 0 w)) = ?rs @ es"
    by (simp add: events_since_def)
  then have "sleeps (events_since w (snd (fetch_page cfg net addr 0 w)))
             = replicate n (of_int (RETRY_DELAY cfg)) @ sleeps es"
    by (simp add: sleeps_append sleeps_retries)
  moreover have "k - 1 < n" using assms(4,5) by arith
  ultimately show ?thesis by (simp add: nth_append)
qed

theorem fetch_page_retry_delay_constant_witness:
  "request_failed (always_down 0 page_url) \<and> request_failed (always_down 1 page_url)
   \<and> request_failed (always_down 2 page_url)
   \<and> int 3 \<le> MAX_RETRIES default_settings \<and> 0 \<le> RETRY_DELAY default_settings
   \<and> (1::nat) \<le> 3 \<and> (3::nat) \<le> 3
   \<and> sleeps (events_since world0 (snd (fetch_page default_settings always_down page_url 0 world0)))
        ! (3 - 1) = 5"
proof -
  have h1: "\<forall>i<3. request_failed (always_down (requests world0 + i) page_url)"
    by (simp add: always_down_def)
  have h2: "int 3 \<le> MAX_RETRIES default_settings" and h3: "0 \<le> RETRY_DELAY default_settings"
    by (simp_all add: default_settings_def)
  have h4: "(1::nat) \<le> 3" and h5: "(3::nat) \<le> 3" by simp_all
  show ?thesis
    using h2 h3 fetch_page_retry_delay_constant [where net = always_down and addr = page_url
        and cfg = default_settings and w = world0 and n = 3 and k = 3, OF h1 h2 h3 h4 h5]
    by (simp add: always_down_def) (simp add: default_settings_def)
qed

text \<open>
  The delays of the specification's backoff fail already at the second retry: the code
  sleeps 5 seconds before each of the three retries, where the specification asks for a
  delay in \<open>[10, 15)\<close> before the second.
\<close>

theorem fetch_page_backoff_counterexample:
  "sleeps (trace (snd (fetch_page default_settings always_down page_url 0 world0))) = [5, 5, 5]
   \<and> \<not> backoff_spec (of_int (RETRY_DELAY default_settings)) 2
         (sleeps (trace (snd (fetch_page default_settings always_down page_url 0 world0))) ! 1)"
  by code_simp

text \<open>
  C5 (as amended). A response with a 4xx status (429 or any other) ends in the same
  handler as every other \<open>RequestException\<close>: while retries are left, \<open>fetch_page\<close>
  sleeps \<open>RETRY_DELAY\<close> and asks again, with one retry used up.
\<close>

theorem fetch_page_client_error_retried:
  assumes "net (requests w) addr = Response status body"
    and "400 \<le> status" and "status < 500"
    and "retry < MAX_RETRIES cfg" and "0 \<le> RETRY_DELAY cfg"
  shows "fetch_page cfg net addr retry w =
         fetch_page cfg net addr (retry + 1)
           (w\<lparr>requests := Suc (requests w),
              trace := trace w @ [Get addr, Sleep (of_int (RETRY_DELAY cfg))]\<rparr>)"
  using assms by (intro fetch_page_retry_step) (simp_all add: raise_for_status_def)

theorem fetch_page_client_error_retried_witness:
  "always_404 (requests world0) page_url = Response 404 ''Not Found''
   \<and> (400::nat) \<le> 404 \<and> (404::nat) < 500
   \<and> 0 < MAX_RETRIES default_settings \<and> 0 \<le> RETRY_DELAY default_settings
   \<and> fetch_page default_settings always_404 page_url 0 world0 =
       fetch_page default_settings always_404 page_url 1
         \<lparr>requests = 1, trace = [Get page_url, Sleep 5]\<rparr>"
proof -
  have h1: "always_404 (requests world0) page_url = Response 404 ''Not Found''"
    by (simp add: always_404_def)
  have h2: "(400::nat) \<le> 404" and h3: "(404::nat) < 500" by simp_all
  have h4: "0 < MAX_RETRIES default_settings" and h5: "0 \<le> RETRY_DELAY default_settings"
    by (simp_all add: default_settings_def)
  show ?thesis
    using h1 h4 h5 fetch_page_client_error_retried [where net = always_404 and addr = page_url
        and cfg = default_settings and w = world0 and retry = 0, OF h1 h2 h3 h4 h5]
    by (simp add: world0_def) (simp add: default_settings_def)
qed

text \<open>
  A page that answers 404 every time is asked for four times, not once.
\<close>

theorem fetch_page_client_error_counterexample:
  "requests (snd (fetch_page default_settings always_404 page_url 0 world0)) = 4
   \<and> requests (snd (fetch_page default_settings always_404 page_url 0 world0)) \<noteq> 1
   \<and> gets (trace (snd (fetch_page default_settings always_404 page_url 0 world0))) = 4"
  by code_simp


section \<open>Waiting between requests\<close>

lemma polite_append: "polite m xs \<Longrightarrow> polite m (xs @ ys) = polite m ys"
  by (induction m xs rule: polite.induct) auto

lemma polite_gaps_from:
  "polite m es \<Longrightarrow> m \<le> acc \<Longrightarrow> \<forall>g\<in>set (gaps_from acc es). m \<le> g"
  by (induction m es arbitrary: acc rule: polite.induct) auto

lemma polite_gaps: "polite m es \<Longrightarrow> \<forall>g\<in>set (gaps es). m \<le> g"
proof (induction m es rule: polite.induct)
  case (2 m u d es)
  then have "\<forall>g\<in>set (gaps_from d es). m \<le> g"
    by (intro polite_gaps_from) auto
  then show ?case by (simp add: gaps_def)
qed (auto simp: gaps_def)

lemma polite_sleeps_sum: "polite m es \<Longrightarrow> of_nat (gets es) * m \<le> sum_list (sleeps es)"
  by (induction m es rule: polite.induct) (auto simp: algebra_simps)

text \<open>
  A call that returns the page has issued only requests that are each followed by a
  sleep: \<open>RETRY_DELAY\<close> after a failed attempt, \<open>DOWNLOAD_DELAY\<close> after the last one.
\<close>

lemma fetch_page_polite:
  "fetch_page cfg net addr retry w = (Inr (Some body), w') \<Longrightarrow>
   \<exists>es. trace w' = trace w @ es
      \<and> polite (min (DOWNLOAD_DELAY cfg) (of_int (RETRY_DELAY cfg))) es
      \<and> requests w' = requests w + gets es"
proof (induction cfg net addr retry w rule: fetch_page.induct)
  case (1 cfg net addr retry w)
  let ?m = "min (DOWNLOAD_DELAY cfg) (of_int (RETRY_DELAY cfg))"
  show ?case
  proof (cases "escapes (net (requests w) addr) = None \<and> request_failed (net (requests w) addr)
                \<and> retry < MAX_RETRIES cfg \<and> \<not> of_int (RETRY_DELAY cfg) < (0::rat)")
    case True
    let ?w2 = "issue addr w\<lparr>trace := trace (issue addr w) @ [Sleep (of_int (RETRY_DELAY cfg))]\<rparr>"
    have eq: "fetch_page cfg net addr retry w = fetch_page cfg net addr (retry + 1) ?w2"
      using True by (subst fetch_page.simps) (simp add: Let_def sleep_def)
    have sl: "sleep (of_int (RETRY_DELAY cfg)) (issue addr w) = Inr ?w2"
      using True by (simp add: sleep_def)
    have "fetch_page cfg net addr (retry + 1) ?w2 = (Inr (Some body), w')"
      using eq "1.prems" by simp
    with True sl "1.IH" [of "net (requests w) addr" "issue addr w" ?w2]
    obtain es where es: "trace w' = trace ?w2 @ es" "polite ?m es"
        "requests w' = requests ?w2 + gets es"
      by auto
    let ?es = "[Get addr, Sleep (of_int (RETRY_DELAY cfg))] @ es"
    have "trace w' = trace w @ ?es" using es(1) by (simp add: issue_def)
    moreover have "polite ?m ?es" using es(2) by simp
    moreover have "requests w' = requests w + gets ?es" using es(3) by (simp add: issue_def)
    ultimately show ?thesis by blast
  next
    case False
    let ?es = "[Get addr, Sleep (DOWNLOAD_DELAY cfg)]"
    from False "1.prems"
    have "trace w' = trace w @ ?es \<and> requests w' = requests w + gets ?es"
      by (subst (asm) fetch_page.simps)
         (auto simp: Let_def sleep_def issue_def split: option.splits sum.splits if_splits)
    moreover have "polite ?m ?es" by simp
    ultimately show ?thesis by blast
  qed
qed

lemma fetch_pages_polite:
  "fetch_pages cfg net urls w = (rs, w') \<Longrightarrow> list_all fetched rs \<Longrightarrow>
   \<exists>es. trace w' = trace w @ es
      \<and> polite (min (DOWNLOAD_DELAY cfg) (of_int (RETRY_DELAY cfg))) es
      \<and> requests w' = requests w + gets es"
proof (induction urls arbitrary: w rs w')
  case Nil
  then have "trace w' = trace w @ [] \<and> polite (min (DOWNLOAD_DELAY cfg) (of_int (RETRY_DELAY cfg))) []
             \<and> requests w' = requests w + gets []"
    by simp
  then show ?case by blast
next
  case (Cons addr urls)
  let ?m = "min (DOWNLOAD_DELAY cfg) (of_int (RETRY_DELAY cfg))"
  obtain r w1 where r: "fetch_page cfg net addr 0 w = (r, w1)" by force
  obtain rs' w2 where rs': "fetch_pages cfg net urls w1 = (rs', w2)" by force
  have "\<not> isl r"
  proof
    assume "isl r"
    then obtain ex where "r = Inl ex" by (cases r) auto
    with Cons.prems r have "rs = [Inl ex]" by simp
    with Cons.prems(2) show False by simp
  qed
  then obtain page where page: "r = Inr page" by (cases r) auto
  from Cons.prems(1) r rs' page have eq: "rs = r # rs'" "w' = w2" by auto
  with Cons.prems(2) have "fetched r" "list_all fetched rs'" by auto
  then obtain body where "r = Inr (Some body)"
    by (cases r rule: fetched.cases) auto
  with r obtain es1 where es1: "trace w1 = trace w @ es1" "polite ?m es1"
      "requests w1 = requests w + gets es1"
    using fetch_page_polite by blast
  from Cons.IH [OF rs' \<open>list_all fetched rs'\<close>]
  obtain es2 where es2: "trace w2 = trace w1 @ es2" "polite ?m es2"
      "requests w2 = requests w1 + gets es2"
    by blast
  have "trace w' = trace w @ (es1 @ es2)" using es1(1) es2(1) eq by simp
  moreover have "polite ?m (es1 @ es2)" using es1(2) es2(2) by (simp add: polite_append)
  moreover have "requests w' = requests w + gets (es1 @ es2)"
    using es1(3) es2(3) eq by (simp add: gets_append)
  ultimately show ?case by blast
qed

text \<open>
  C9 (as amended). When every call of a run returns its page, every request of the run
  is followed by a sleep of \<open>DOWNLOAD_DELAY\<close> (after a success) or \<open>RETRY_DELAY\<close>
  (before a retry): consecutive requests are separated by at least the smaller of the
  two, and \<open>n\<close> requests accumulate at least \<open>n\<close> times that much enforced waiting.
  \<open>REQUESTS_PER_SECOND\<close> plays no part.
\<close>

theorem fetch_pages_politeness:
  assumes "fetch_pages cfg net urls w = (rs, w')" and "list_all fetched rs"
  shows "(\<forall>g\<in>set (gaps (events_since w w')).
            min (DOWNLOAD_DELAY cfg) (of_int (RETRY_DELAY cfg)) \<le> g)
         \<and> of_nat (requests w' - requests w) * min (DOWNLOAD_DELAY cfg) (of_int (RETRY_DELAY cfg))
             \<le> sum_list (sleeps (events_since w w'))"
proof -
  obtain es where es: "trace w' = trace w @ es"
      "polite (min (DOWNLOAD_DELAY cfg) (of_int (RETRY_DELAY cfg))) es"
      "requests w' = requests w + gets es"
    using fetch_pages_polite [OF assms] by blast
  have "events_since w w' = es" using es(1) by (simp add: events_since_def)
  moreover have "requests w' - requests w = gets es" using es(3) by simp
  ultimately show ?thesis
    using polite_gaps [OF es(2)] polite_sleeps_sum [OF es(2)] by simp
qed

lemma fetch_page_up:
  "fetch_page default_settings always_up addr 0 w =
     (Inr (Some ''<html></html>''),
      w\<lparr>requests := Suc (requests w), trace := trace w @ [Get addr, Sleep 1]\<rparr>)"
  using fetch_page_success [where net = always_up and w = w and addr = addr and status = 200
      and body = "''<html></html>''" and cfg = default_settings and retry = 0]
  by (simp add: always_up_def raise_for_status_def) (simp add: default_settings_def)

theorem fetch_pages_politeness_witness:
  "fetch_pages default_settings always_up (replicate 10 page_url) world0 =
     (replicate 10 (Inr (Some ''<html></html>'')),
      \<lparr>requests = 10, trace = concat (replicate 10 [Get page_url, Sleep 1])\<rparr>)
   \<and> list_all fetched (replicate 10 (Inr (Some ''<html></html>'')))
   \<and> list_all (\<lambda>g. 1 \<le> g)
        (gaps (events_since world0
           \<lparr>requests = 10, trace = concat (replicate 10 [Get page_url, Sleep 1])\<rparr>))
   \<and> 9 / 2 \<le> sum_list (sleeps (events_since world0
           \<lparr>requests = 10, trace = concat (replicate 10 [Get page_url, Sleep 1])\<rparr>))"
proof -
  let ?rs = "replicate 10 (Inr (Some ''<html></html>'')) :: (exn + string option) list"
  let ?w = "\<lparr>requests = 10, trace = concat (replicate 10 [Get page_url, Sleep 1])\<rparr>"
  have h1: "fetch_pages default_settings always_up (replicate 10 page_url) world0 = (?rs, ?w)"
    by (simp add: numeral_nat fetch_page_up world0_def)
  have h2: "list_all fetched ?rs"
    by (simp add: list_all_iff)
  have m: "min (DOWNLOAD_DELAY default_settings) (of_int (RETRY_DELAY default_settings)) = 1"
    by (simp add: default_settings_def)
  have r: "requests ?w - requests world0 = 10"
    by (simp add: world0_def)
  from fetch_pages_politeness [OF h1 h2]
  have "(\<forall>g\<in>set (gaps (events_since world0 ?w)). 1 \<le> g)
        \<and> 10 \<le> sum_list (sleeps (events_since world0 ?w))"
    unfolding m r by simp
  then have "list_all (\<lambda>g. 1 \<le> g) (gaps (events_since world0 ?w))
        \<and> 9 / 2 \<le> sum_list (sleeps (events_since world0 ?w))"
    by (simp add: list_all_iff)
  with h1 h2 show ?thesis by blast
qed

text \<open>
  The claim as the specification states it fails after a call that gives up: the last,
  failed request of that call is followed by no sleep, so the first request of the next
  call comes with no enforced wait at all, while the specification's spacing is 1 second
  under the default settings.
\<close>

theorem fetch_pages_politeness_counterexample:
  "gaps (trace (snd (fetch_pages default_settings down_then_up [page_url, page_url] world0)))
     = [5, 5, 5, 0]
   \<and> politeness_spec default_settings = 1
   \<and> \<not> politeness_spec default_settings
         \<le> gaps (trace (snd (fetch_pages default_settings down_then_up
                                [page_url, page_url] world0))) ! 3"
  by code_simp


section \<open>clean\_text\<close>

text \<open>
  \<open>clean_text\<close> yields the words of the text joined by single spaces (no line feed is
  left for the \<open>replace\<close>, no whitespace at the ends for the \<open>strip\<close>), and cleaning a
  cleaned text changes nothing.
\<close>

lemma split_acc_solid:
  "list_all (\<lambda>c. \<not> is_space c) cur \<Longrightarrow> list_all solid (split_acc cur s)"
  by (induction s arbitrary: cur) (auto simp: solid_def)

lemma split_solid: "list_all solid (split s)"
  by (simp add: split_def split_acc_solid)

lemma split_acc_word:
  "list_all (\<lambda>c. \<not> is_space c) w \<Longrightarrow> split_acc cur (w @ rest) = split_acc (cur @ w) rest"
  by (induction w arbitrary: cur) auto

lemma is_space_blank: "is_space CHR '' ''"
  by (simp add: is_space_def)

lemma split_join: "list_all solid ws \<Longrightarrow> split_acc [] (join '' '' ws) = ws"
proof (induction "'' ''" ws rule: join.induct)
  case 1
  then show ?case by simp
next
  case (2 w)
  then show ?case
    using split_acc_word [of w "[]" "[]"] by (simp add: solid_def)
next
  case (3 w v ws)
  then have "split_acc [] (w @ '' '' @ join '' '' (v # ws))
             = split_acc w ('' '' @ join '' '' (v # ws))"
    using split_acc_word [of w "[]"] by (simp add: solid_def)
  with 3 show ?case by (simp add: solid_def is_space_blank)
qed

lemma join_chars: "set (join sep ws) \<subseteq> set sep \<union> \<Union> (set ` set ws)"
  by (induction sep ws rule: join.induct) auto

lemma replace_from_absent: "p \<notin> set s \<Longrightarrow> replace_from (p # ps) new 0 s = s"
  by (induction s) auto

lemma join_ends:
  "ws \<noteq> [] \<Longrightarrow> list_all solid ws \<Longrightarrow>
   join '' '' ws \<noteq> [] \<and> \<not> is_space (hd (join '' '' ws)) \<and> \<not> is_space (last (join '' '' ws))"
proof (induction "'' ''" ws rule: join.induct)
  case 1
  then show ?case by simp
next
  case (2 w)
  then show ?case
    using hd_in_set [of w] last_in_set [of w] by (auto simp: solid_def list_all_iff)
next
  case (3 w v ws)
  then show ?case
    using hd_in_set [of w] by (cases w) (auto simp: solid_def list_all_iff)
qed

lemma dropWhile_hd: "xs \<noteq> [] \<Longrightarrow> \<not> P (hd xs) \<Longrightarrow> dropWhile P xs = xs"
  by (cases xs) auto

lemma strip_solid_ends:
  assumes "s \<noteq> []" and "\<not> is_space (hd s)" and "\<not> is_space (last s)"
  shows "strip s = s"
proof -
  have 1: "dropWhile is_space s = s"
    using assms(1,2) by (rule dropWhile_hd)
  have "rev s \<noteq> []" and "\<not> is_space (hd (rev s))"
    using assms(1,3) by (simp_all add: hd_rev)
  then have 2: "dropWhile is_space (rev s) = rev s"
    by (rule dropWhile_hd)
  show ?thesis by (simp add: strip_def 1 2)
qed

lemma clean_text_join: "clean_text s = join '' '' (split s)"
proof (cases "split s = []")
  case True
  then show ?thesis by (simp add: clean_text_def replace_def strip_def Let_def)
next
  case False
  let ?j = "join '' '' (split s)"
  have solid: "list_all solid (split s)" by (rule split_solid)
  have "CHR 0x0A \<notin> set ?j"
  proof
    assume "CHR 0x0A \<in> set ?j"
    then have "CHR 0x0A \<in> set '' '' \<union> \<Union> (set ` set (split s))"
      using join_chars by blast
    then obtain w where "w \<in> set (split s)" "CHR 0x0A \<in> set w" by auto
    with solid have "\<not> is_space (CHR 0x0A)" by (auto simp: solid_def list_all_iff)
    then show False by (simp add: is_space_def)
  qed
  then have r: "replace [CHR 0x0A, CHR 0x0A, CHR 0x0A] [CHR 0x0A, CHR 0x0A] ?j = ?j"
    by (simp add: replace_def replace_from_absent)
  have "strip ?j = ?j"
    using join_ends [OF False solid] by (intro strip_solid_ends) auto
  with r show ?thesis by (simp add: clean_text_def Let_def)
qed

lemma clean_text_idem: "clean_text (clean_text s) = clean_text s"
  by (simp add: clean_text_join split_def split_join split_acc_solid)


section \<open>The feed and API connectors\<close>

lemma sample_strings:
  "strip ''Alpha'' = ''Alpha''" "strip ''Gamma'' = ''Gamma''" "strip ''Old'' = ''Old''"
  "strip ''https://example.com/1'' = ''https://example.com/1''"
  "strip ''https://example.com/3'' = ''https://example.com/3''"
  "strip ''https://example.com/4'' = ''https://example.com/4''"
  "clean_text ''First story'' = ''First story''"
  "clean_text ''Old'' = ''Old''"
  by code_simp+

lemmas sample_eval =
  parse_entry_def get_or_empty_def sample_strings is_recent_def timedelta_hours_def Let_def
  fetch_clock_def
  fetch_time_def hours_def days_def default_settings_def entry_image_def entry_tags_def
  falsy_def bbc_def detect_language_def detect_en_def parse_api_article_def newsapi_def
  item_source_def

lemma parse_entry_alpha:
  "parse_entry bbc default_settings detect_en (fetch_clock 0) entry_alpha =
     Inr (Some (Article_init fetch_time ''Alpha'' ''https://example.com/1'' ''First story''
                  ''First story'' None (Some (fetch_time - hours 1)) ''bbc'' None None ''en''
                  (Some [])))"
  by (simp add: sample_eval entry_alpha_def)

lemma parse_entry_broken:
  "parse_entry bbc default_settings detect_en (fetch_clock 1) entry_broken = Inl AttributeError"
  by (simp add: sample_eval entry_alpha_def entry_broken_def)

lemma parse_entry_gamma:
  "parse_entry bbc default_settings detect_en (fetch_clock 2) entry_gamma =
     Inr (Some (Article_init (fetch_time + 2000) ''Gamma'' ''https://example.com/3''
                  ''First story'' ''First story'' None (Some (fetch_time - hours 1)) ''bbc''
                  None None ''en'' (Some [])))"
  by (simp add: sample_eval entry_alpha_def entry_gamma_def)

text \<open>The loop appends, entry by entry, what each entry contributes.\<close>

lemma scrape_loop_articles:
  "scrape_loop self cfg detect clock i es articles =
     articles @ concat (map (\<lambda>k. parsed_article (parse_entry self cfg detect (clock (i + k)) (es ! k)))
                          [0..<length es])"
proof (induction es arbitrary: i articles)
  case Nil
  then show ?case by simp
next
  case (Cons e es)
  have split_upt: "[0..<length (e # es)] = 0 # map Suc [0..<length es]"
    by (simp add: upt_conv_Cons map_Suc_upt del: upt_Suc)
  have rest: "map (\<lambda>k. parsed_article (parse_entry self cfg detect (clock (i + k)) ((e # es) ! k)))
                (map Suc [0..<length es])
              = map (\<lambda>k. parsed_article (parse_entry self cfg detect (clock (Suc i + k)) (es ! k)))
                  [0..<length es]"
    by simp
  show ?case
  proof (cases "parse_entry self cfg detect (clock i) e")
    case (Inl ex)
    then show ?thesis
      unfolding split_upt using Cons.IH [of "Suc i" articles] rest by (simp add: comp_def)
  next
    case (Inr r)
    then show ?thesis
      unfolding split_upt
      using Cons.IH [of "Suc i" articles] Cons.IH [of "Suc i" "articles @ [the r]"] rest
      by (cases r) (simp_all add: comp_def)
  qed
qed

text \<open>
  C8. The result of a feed fetch is, in the order of the feed, the article of every
  entry that \<open>_parse_entry\<close> turns into one: an entry on which it raises contributes
  nothing and takes nothing away from the entries before and after it.
\<close>

theorem scrape_skips_malformed:
  "scrape self cfg detect clock (Inr fd) =
     concat (map (\<lambda>k. parsed_article (parse_entry self cfg detect (clock k) (entries fd ! k)))
               [0..<length (entries fd)])"
  by (simp add: scrape_def scrape_loop_articles)

theorem scrape_skips_malformed_witness:
  "parse_entry bbc default_settings detect_en (fetch_clock 1) entry_broken = Inl AttributeError
   \<and> scrape bbc default_settings detect_en fetch_clock
        (Inr \<lparr>bozo = False, entries = [entry_alpha, entry_broken, entry_gamma]\<rparr>) =
       [Article_init fetch_time ''Alpha'' ''https://example.com/1'' ''First story''
          ''First story'' None (Some (fetch_time - hours 1)) ''bbc'' None None ''en'' (Some []),
        Article_init (fetch_time + 2000) ''Gamma'' ''https://example.com/3'' ''First story''
          ''First story'' None (Some (fetch_time - hours 1)) ''bbc'' None None ''en'' (Some [])]"
proof -
  have three: "[0..<length [entry_alpha, entry_broken, entry_gamma]] = [0, Suc 0, Suc (Suc 0)]"
    by (simp add: upt_rec)
  have b: "parse_entry bbc default_settings detect_en (fetch_clock (Suc 0)) entry_broken
           = Inl AttributeError"
    using parse_entry_broken by simp
  have g: "parse_entry bbc default_settings detect_en (fetch_clock (Suc (Suc 0))) entry_gamma =
     Inr (Some (Article_init (fetch_time + 2000) ''Gamma'' ''https://example.com/3''
                  ''First story'' ''First story'' None (Some (fetch_time - hours 1)) ''bbc''
                  None None ''en'' (Some [])))"
    using parse_entry_gamma by (simp add: numeral_2_eq_2)
  from scrape_skips_malformed [of bbc default_settings detect_en fetch_clock
        "\<lparr>bozo = False, entries = [entry_alpha, entry_broken, entry_gamma]\<rparr>"]
  have "scrape bbc default_settings detect_en fetch_clock
          (Inr \<lparr>bozo = False, entries = [entry_alpha, entry_broken, entry_gamma]\<rparr>) =
        [Article_init fetch_time ''Alpha'' ''https://example.com/1'' ''First story''
           ''First story'' None (Some (fetch_time - hours 1)) ''bbc'' None None ''en'' (Some []),
         Article_init (fetch_time + 2000) ''Gamma'' ''https://example.com/3'' ''First story''
           ''First story'' None (Some (fetch_time - hours 1)) ''bbc'' None None ''en'' (Some [])]"
    unfolding three by (simp add: parse_entry_alpha b g)
  with parse_entry_broken show ?thesis by simp
qed

text \<open>
  The feed connector leaves out every entry whose date lies at least
  \<open>SCRAPE_LAST_N_HOURS\<close> before the time at which the entry is parsed.
\<close>

lemma parse_entry_drops_stale:
  assumes "e_published_parsed e = At d" and "hours (SCRAPE_LAST_N_HOURS cfg) \<le> now - d"
  shows "parsed_article (parse_entry self cfg detect now e) = []"
  using assms
  by (auto simp: parse_entry_def is_recent_def timedelta_hours_def Let_def
           split: sum.splits if_splits)

lemma concat_map_without:
  "f k = [] \<Longrightarrow> concat (map f xs) = concat (map f (filter (\<lambda>i. i \<noteq> k) xs))"
  by (induction xs) auto

text \<open>
  C6 (as amended). For the feed connector: an entry whose published date is, at the time
  \<open>t0\<close> of the fetch, at least \<open>SCRAPE_LAST_N_HOURS\<close> old contributes nothing to the
  articles that \<open>scrape\<close> returns; the result is made of what the other entries
  contribute.
\<close>

theorem feed_drops_stale_entry:
  assumes "k < length (entries fd)" and "e_published_parsed (entries fd ! k) = At d"
    and "t0 \<le> clock k" and "hours (SCRAPE_LAST_N_HOURS cfg) \<le> t0 - d"
  shows "scrape self cfg detect clock (Inr fd) =
         concat (map (\<lambda>i. parsed_article (parse_entry self cfg detect (clock i) (entries fd ! i)))
                   (filter (\<lambda>i. i \<noteq> k) [0..<length (entries fd)]))"
proof -
  have "hours (SCRAPE_LAST_N_HOURS cfg) \<le> clock k - d"
    using assms(3,4) by arith
  then have "parsed_article (parse_entry self cfg detect (clock k) (entries fd ! k)) = []"
    using assms(2) by (intro parse_entry_drops_stale) auto
  then have "concat (map (\<lambda>i. parsed_article (parse_entry self cfg detect (clock i) (entries fd ! i)))
                      [0..<length (entries fd)])
             = concat (map (\<lambda>i. parsed_article (parse_entry self cfg detect (clock i) (entries fd ! i)))
                        (filter (\<lambda>i. i \<noteq> k) [0..<length (entries fd)]))"
    by (rule concat_map_without)
  then show ?thesis by (simp add: scrape_def scrape_loop_articles)
qed

theorem feed_drops_stale_entry_witness:
  "e_published_parsed entry_stale = At (fetch_time - days 40)
   \<and> fetch_time \<le> fetch_clock 1
   \<and> hours (SCRAPE_LAST_N_HOURS default_settings) \<le> fetch_time - (fetch_time - days 40)
   \<and> scrape bbc default_settings detect_en fetch_clock
        (Inr \<lparr>bozo = False, entries = [entry_alpha, entry_stale]\<rparr>) =
       [Article_init fetch_time ''Alpha'' ''https://example.com/1'' ''First story''
          ''First story'' None (Some (fetch_time - hours 1)) ''bbc'' None None ''en'' (Some [])]"
proof -
  let ?fd = "\<lparr>bozo = False, entries = [entry_alpha, entry_stale]\<rparr>"
  have h1: "1 < length (entries ?fd)" by simp
  have h2: "e_published_parsed (entries ?fd ! 1) = At (fetch_time - days 40)"
    by (simp add: entry_stale_def)
  have h3: "fetch_time \<le> fetch_clock 1"
    by (simp add: fetch_clock_def)
  have h4: "hours (SCRAPE_LAST_N_HOURS default_settings) \<le> fetch_time - (fetch_time - days 40)"
    by (simp add: default_settings_def hours_def days_def)
  have others: "filter (\<lambda>i. i \<noteq> 1) [0..<length (entries ?fd)] = [0]"
    by (simp add: upt_rec)
  from feed_drops_stale_entry [where fd = ?fd and k = 1 and clock = fetch_clock
      and cfg = default_settings and self = bbc and detect = detect_en, OF h1 h2 h3 h4]
  have "scrape bbc default_settings detect_en fetch_clock (Inr ?fd) =
        [Article_init fetch_time ''Alpha'' ''https://example.com/1'' ''First story''
           ''First story'' None (Some (fetch_time - hours 1)) ''bbc'' None None ''en'' (Some [])]"
    unfolding others by (simp add: parse_entry_alpha)
  with h2 h3 h4 show ?thesis by simp
qed

text \<open>
  The claim as the specification states it, for both connectors, fails for the API
  connector: an item published 40 days before the fetch is turned into an article and
  returned, although it is not recent by \<open>is_recent\<close>; the feed connector leaves out
  the entry with the same date.
\<close>

theorem api_scrape_keeps_stale_item:
  "api_scrape newsapi detect_en fetch_clock (ApiAnswer ''ok'' [item_stale]) =
     [Article_init fetch_time ''Old'' ''https://example.com/4'' ''First story'' ''First story''
        None (Some (fetch_time - days 40)) ''bbc-news'' None None ''en'' None]
   \<and> published_at (Article_init fetch_time ''Old'' ''https://example.com/4'' ''First story''
        ''First story'' None (Some (fetch_time - days 40)) ''bbc-news'' None None ''en'' None)
       = fetch_time - days 40
   \<and> is_recent default_settings (fetch_clock 0) (fetch_time - days 40) None = Inr False
   \<and> scrape bbc default_settings detect_en fetch_clock
        (Inr \<lparr>bozo = False, entries = [entry_stale]\<rparr>) = []"
proof -
  have api: "parse_api_article newsapi detect_en (fetch_clock 0) item_stale =
     Inr (Some (Article_init fetch_time ''Old'' ''https://example.com/4'' ''First story''
                  ''First story'' None (Some (fetch_time - days 40)) ''bbc-news'' None None
                  ''en'' None))"
    by (simp add: sample_eval item_stale_def)
  have rss: "parse_entry bbc default_settings detect_en (fetch_clock 0) entry_stale = Inr None"
    by (simp add: sample_eval entry_alpha_def entry_stale_def)
  have old: "is_recent default_settings (fetch_clock 0) (fetch_time - days 40) None = Inr False"
    by (simp add: sample_eval)
  have pub: "published_at (Article_init fetch_time ''Old'' ''https://example.com/4''
        ''First story'' ''First story'' None (Some (fetch_time - days 40)) ''bbc-news'' None
        None ''en'' None) = fetch_time - days 40"
    by (simp add: Article_init_def Let_def)
  show ?thesis
    using old pub by (simp add: api_scrape_def scrape_top_headlines_def scrape_def api rss)
qed


section \<open>Validation\<close>




lemma long_read_words: "length (split (concat (replicate 60 ''word ''))) = 60"
  by code_simp

lemma long_read_title: "\<not> is_blacklisted default_settings ''Markets rally''"
  by code_simp

text \<open>
  An article that meets every condition of the validity predicate is not returned by
  \<open>run\<close> either: \<open>is_valid\<close> raises \<open>AttributeError\<close> at
  \<open>settings.is_allowed_language\<close>, and the handler of \<open>run\<close> answers with the empty
  list.
\<close>

lemma run_drops_valid_article:
  "valid_spec default_settings long_read
   \<and> is_valid default_settings long_read = Inl AttributeError
   \<and> run default_settings (Inr [long_read]) = []"
proof -
  have f: "title long_read = ''Markets rally''" "url long_read = ''https://example.com/markets''"
    "content long_read = concat (replicate 60 ''word '')" "language long_read = ''en''"
    by (simp_all add: long_read_def Article_init_def Let_def)
  have v: "valid_spec default_settings long_read"
    unfolding valid_spec_def f long_read_words
    using long_read_title by (simp add: default_settings_def is_allowed_language_def)
  have m: "settings_method ''is_allowed_language'' = Inl AttributeError"
    by (simp add: settings_method_def settings_fields_def)
  have i: "is_valid default_settings long_read = Inl AttributeError"
    unfolding is_valid_def f long_read_words m
    by (simp add: default_settings_def)
  from v i show ?thesis by (simp add: run_def)
qed





section \<open>Fingerprints\<close>

lemma headline_strings:
  "strip raw_headline = ''Breaking  News''"
  "clean_text raw_headline = ''Breaking News''"
  "clean_text ''Breaking   News '' = ''Breaking News''"
  "clean_text ''Breaking  News'' = ''Breaking News''"
  "clean_text ''Breaking News'' = ''Breaking News''"
  by code_simp+

lemma md5_headline_feed:
  "hexdigest (md5 (encode_utf8 ''Breaking  Newshttps://example.com/a''))
   = ''e0ef0b452f31c9607193ca995d24f786''"
  by code_simp

lemma md5_headline_api:
  "hexdigest (md5 (encode_utf8 ''Breaking Newshttps://example.com/a''))
   = ''8f4da6e833c60a7607a36c5fca9d82f7''"
  by code_simp

lemma content_hash_init:
  "content_hash (Article_init now t u c s au pub src cat img lang tgs)
   = hexdigest (md5 (encode_utf8 (t @ u)))"
  by (simp add: Article_init_def generate_hash_def Let_def)

text \<open>The API connector stores every title in the normal form.\<close>

lemma api_title_normalized:
  "parse_api_article self detect now item = Inr (Some a) \<Longrightarrow> title a = clean_text (title a)"
  by (auto simp: parse_api_article_def Article_init_def Let_def clean_text_idem
           split: sum.splits if_splits)

text \<open>
  C1 (as amended). The fingerprint is the MD5 of the stored title followed by the URL.
  Two articles whose stored titles are already in the normal form of \<open>clean_text\<close> (as
  the API connector stores them), with equal normalized titles and equal URLs, have the
  same fingerprint, whatever their other fields are.
\<close>

theorem fingerprint_of_normalized_title:
  assumes "clean_text (title a) = clean_text (title b)" and "url a = url b"
    and "title a = clean_text (title a)" and "title b = clean_text (title b)"
  shows "generate_hash a = generate_hash b"
proof -
  from assms(1,3,4) have "title a = title b" by simp
  with assms(2) show ?thesis by (simp add: generate_hash_def)
qed

theorem fingerprint_of_normalized_title_witness:
  "clean_text (title headline_api) = clean_text (title headline_api2)
   \<and> url headline_api = url headline_api2
   \<and> title headline_api = clean_text (title headline_api)
   \<and> title headline_api2 = clean_text (title headline_api2)
   \<and> content headline_api \<noteq> content headline_api2
   \<and> source headline_api \<noteq> source headline_api2
   \<and> generate_hash headline_api = generate_hash headline_api2"
proof -
  have f: "title headline_api = ''Breaking News''" "title headline_api2 = ''Breaking News''"
    "url headline_api = ''https://example.com/a''" "url headline_api2 = ''https://example.com/a''"
    by (simp_all add: headline_api_def headline_api2_def Article_init_def Let_def headline_strings)
  have h1: "clean_text (title headline_api) = clean_text (title headline_api2)"
    and h2: "url headline_api = url headline_api2"
    and h3: "title headline_api = clean_text (title headline_api)"
    and h4: "title headline_api2 = clean_text (title headline_api2)"
    by (simp_all add: f headline_strings)
  have d: "content headline_api \<noteq> content headline_api2"
    "source headline_api \<noteq> source headline_api2"
    by (simp_all add: headline_api_def headline_api2_def Article_init_def Let_def)
  show ?thesis
    using h1 h2 h3 h4 d fingerprint_of_normalized_title [OF h1 h2 h3 h4] by blast
qed

text \<open>
  The claim as the specification states it fails for the same headline taken from a feed
  and from the API: the normalized titles and the URLs are equal, the fingerprints are
  not, since the feed connector keeps the two spaces in the title it stores.
\<close>

theorem fingerprint_counterexample:
  "clean_text (title headline_feed) = clean_text (title headline_api)
   \<and> url headline_feed = url headline_api
   \<and> content_hash headline_feed = ''e0ef0b452f31c9607193ca995d24f786''
   \<and> content_hash headline_api = ''8f4da6e833c60a7607a36c5fca9d82f7''
   \<and> content_hash headline_feed \<noteq> content_hash headline_api"
proof -
  have f: "title headline_feed = ''Breaking  News''" "title headline_api = ''Breaking News''"
    "url headline_feed = ''https://example.com/a''" "url headline_api = ''https://example.com/a''"
    by (simp_all add: headline_feed_def headline_api_def Article_init_def Let_def headline_strings)
  have a: "content_hash headline_feed = ''e0ef0b452f31c9607193ca995d24f786''"
    unfolding headline_feed_def content_hash_init headline_strings
    using md5_headline_feed by simp
  have b: "content_hash headline_api = ''8f4da6e833c60a7607a36c5fca9d82f7''"
    unfolding headline_api_def content_hash_init headline_strings
    using md5_headline_api by simp
  have "clean_text (title headline_feed) = clean_text (title headline_api)"
    by (simp add: f headline_strings)
  moreover have "url headline_feed = url headline_api"
    by (simp add: f)
  moreover have "content_hash headline_feed \<noteq> content_hash headline_api"
    unfolding a b by simp
  ultimately show ?thesis using a b by blast
qed


section \<open>Deduplication\<close>

lemma dedup_inv_init: "dedup_inv cfg dedup_init"
  by (simp add: dedup_inv_def dedup_init_def)

lemma dedup_inv_step: "dedup_inv cfg st \<Longrightarrow> dedup_inv cfg (dedup_step cfg st a)"
  by (auto simp: dedup_inv_def dedup_step_def Let_def)

lemma dedup_inv_foldl: "dedup_inv cfg st \<Longrightarrow> dedup_inv cfg (foldl (dedup_step cfg) st xs)"
  by (induction xs arbitrary: st) (auto simp: dedup_inv_step)

text \<open>Articles with new, pairwise different keys are all kept, in order.\<close>

lemma dedup_keeps_fresh:
  assumes "CHECK_DUPLICATES_BY_URL cfg \<longrightarrow>
             distinct (map url ys) \<and> url ` set ys \<inter> seen_urls st = {}"
    and "CHECK_DUPLICATES_BY_TITLE cfg \<longrightarrow>
             distinct (map content_hash ys) \<and> content_hash ` set ys \<inter> seen_hashes st = {}"
  shows "unique (foldl (dedup_step cfg) st ys) = unique st @ ys"
  using assms
proof (induction ys arbitrary: st)
  case Nil
  then show ?case by simp
next
  case (Cons y ys)
  let ?st = "dedup_step cfg st y"
  have u: "unique ?st = unique st @ [y]"
    using Cons.prems by (auto simp: dedup_step_def Let_def)
  have su: "CHECK_DUPLICATES_BY_URL cfg \<longrightarrow> seen_urls ?st = insert (url y) (seen_urls st)"
    using Cons.prems by (auto simp: dedup_step_def Let_def)
  have sh: "CHECK_DUPLICATES_BY_TITLE cfg \<longrightarrow>
              seen_hashes ?st = insert (content_hash y) (seen_hashes st)"
    using Cons.prems by (auto simp: dedup_step_def Let_def)
  have "unique (foldl (dedup_step cfg) ?st ys) = unique ?st @ ys"
  proof (rule Cons.IH)
    show "CHECK_DUPLICATES_BY_URL cfg \<longrightarrow>
            distinct (map url ys) \<and> url ` set ys \<inter> seen_urls ?st = {}"
      using Cons.prems(1) su by auto
    show "CHECK_DUPLICATES_BY_TITLE cfg \<longrightarrow>
            distinct (map content_hash ys) \<and> content_hash ` set ys \<inter> seen_hashes ?st = {}"
      using Cons.prems(2) sh by auto
  qed
  with u show ?case by simp
qed

lemma deduplicate_articles_twice:
  "deduplicate_articles cfg (deduplicate_articles cfg xs) = deduplicate_articles cfg xs"
proof -
  let ?st = "foldl (dedup_step cfg) dedup_init xs"
  have inv: "dedup_inv cfg ?st"
    by (intro dedup_inv_foldl dedup_inv_init)
  have "unique (foldl (dedup_step cfg) dedup_init (unique ?st)) = unique dedup_init @ unique ?st"
    using inv by (intro dedup_keeps_fresh) (auto simp: dedup_inv_def dedup_init_def)
  then show ?thesis by (simp add: deduplicate_articles_def dedup_init_def)
qed

lemma dedup_step_twice:
  "CHECK_DUPLICATES_BY_URL cfg \<or> CHECK_DUPLICATES_BY_TITLE cfg \<Longrightarrow>
   dedup_step cfg (dedup_step cfg st a) a = dedup_step cfg st a"
  by (auto simp: dedup_step_def Let_def)

lemma deduplicate_pair:
  assumes "CHECK_DUPLICATES_BY_URL cfg \<or> CHECK_DUPLICATES_BY_TITLE cfg"
    and "url a = url b" and "content_hash a = content_hash b"
  shows "deduplicate_articles cfg [a, b] = [a]"
  using assms by (auto simp: deduplicate_articles_def dedup_step_def dedup_init_def Let_def)

lemma dedup_step_recorded_hash:
  assumes "CHECK_DUPLICATES_BY_TITLE cfg" and "content_hash b \<in> seen_hashes st"
  shows "seen_hashes (dedup_step cfg st b) = seen_hashes st
         \<and> unique (dedup_step cfg st b) = unique st"
  using assms by (auto simp: dedup_step_def Let_def)

text \<open>
  C7 (as amended). Deduplication is idempotent under every setting: a second pass
  over its own output changes nothing. With the check by title on, an article whose
  fingerprint is already recorded is dropped and leaves the recorded fingerprints and
  the list of kept articles as they are (its URL can still be added to the URLs seen).
  With at least one of the two checks on, as both are by default, recording the same
  article a second time leaves the whole state of the loop as the first time left it,
  and of two articles with the same URL and title, each with the hash its constructor
  computed, only the first is kept: one delivered, one removed.
\<close>

theorem deduplicate_articles_idempotent:
  "deduplicate_articles cfg (deduplicate_articles cfg xs) = deduplicate_articles cfg xs
   \<and> (CHECK_DUPLICATES_BY_TITLE cfg \<and> content_hash c \<in> seen_hashes st \<longrightarrow>
        seen_hashes (dedup_step cfg st c) = seen_hashes st
        \<and> unique (dedup_step cfg st c) = unique st)
   \<and> (CHECK_DUPLICATES_BY_URL cfg \<or> CHECK_DUPLICATES_BY_TITLE cfg \<longrightarrow>
        dedup_step cfg (dedup_step cfg st a) a = dedup_step cfg st a)
   \<and> (CHECK_DUPLICATES_BY_URL cfg \<or> CHECK_DUPLICATES_BY_TITLE cfg \<longrightarrow>
        url a = url b \<and> title a = title b
        \<and> content_hash a = generate_hash a \<and> content_hash b = generate_hash b \<longrightarrow>
        deduplicate_articles cfg [a, b] = [a]
        \<and> length (deduplicate_articles cfg [a, b]) = 1
        \<and> length [a, b] - length (deduplicate_articles cfg [a, b]) = 1)"
proof (intro conjI impI)
  show "deduplicate_articles cfg (deduplicate_articles cfg xs) = deduplicate_articles cfg xs"
    by (rule deduplicate_articles_twice)
next
  assume "CHECK_DUPLICATES_BY_TITLE cfg \<and> content_hash c \<in> seen_hashes st"
  then show "seen_hashes (dedup_step cfg st c) = seen_hashes st"
    and "unique (dedup_step cfg st c) = unique st"
    using dedup_step_recorded_hash [of cfg c st] by simp_all
next
  assume "CHECK_DUPLICATES_BY_URL cfg \<or> CHECK_DUPLICATES_BY_TITLE cfg"
  then show "dedup_step cfg (dedup_step cfg st a) a = dedup_step cfg st a"
    by (rule dedup_step_twice)
next
  assume f: "CHECK_DUPLICATES_BY_URL cfg \<or> CHECK_DUPLICATES_BY_TITLE cfg"
    and e: "url a = url b \<and> title a = title b
            \<and> content_hash a = generate_hash a \<and> content_hash b = generate_hash b"
  then have "content_hash a = content_hash b"
    by (simp add: generate_hash_def)
  with f e have d: "deduplicate_articles cfg [a, b] = [a]"
    by (intro deduplicate_pair) auto
  then show "deduplicate_articles cfg [a, b] = [a]"
    and "length (deduplicate_articles cfg [a, b]) = 1"
    and "length [a, b] - length (deduplicate_articles cfg [a, b]) = 1"
    by simp_all
qed

lemma story_hashes:
  "content_hash story_a = hexdigest (md5 (encode_utf8 ''Markets rallyhttps://example.com/markets''))"
  "content_hash story_b = hexdigest (md5 (encode_utf8 ''Markets rallyhttps://example.com/markets''))"
  "content_hash story_c = hexdigest (md5 (encode_utf8 ''Markets rallyhttps://example.com/markets''))"
  by (simp_all add: story_a_def story_b_def story_c_def Article_init_def generate_hash_def Let_def)

lemma story_fields:
  "url story_a = ''https://example.com/markets''" "url story_b = ''https://example.com/markets''"
  "url story_c = ''ttps://example.com/markets''"
  "title story_a = ''Markets rally''" "title story_b = ''Markets rally''"
  "title story_c = ''Markets rallyh''"
  "source story_a = ''bbc''" "source story_b = ''reuters''"
  by (simp_all add: story_a_def story_b_def story_c_def Article_init_def Let_def)

theorem deduplicate_articles_idempotent_witness:
  "CHECK_DUPLICATES_BY_URL default_settings \<and> CHECK_DUPLICATES_BY_TITLE default_settings
   \<and> url story_a = url story_b \<and> title story_a = title story_b
   \<and> content_hash story_a = generate_hash story_a
   \<and> content_hash story_b = generate_hash story_b
   \<and> source story_a \<noteq> source story_b
   \<and> deduplicate_articles default_settings [story_a, story_b] = [story_a]
   \<and> length [story_a, story_b] - length (deduplicate_articles default_settings [story_a, story_b]) = 1
   \<and> deduplicate_articles default_settings (deduplicate_articles default_settings [story_a, story_b])
       = deduplicate_articles default_settings [story_a, story_b]
   \<and> dedup_step default_settings (dedup_step default_settings dedup_init story_a) story_a
       = dedup_step default_settings dedup_init story_a
   \<and> content_hash story_c \<in> seen_hashes (dedup_step default_settings dedup_init story_a)
   \<and> url story_c \<noteq> url story_a
   \<and> seen_hashes (dedup_step default_settings (dedup_step default_settings dedup_init story_a) story_c)
       = seen_hashes (dedup_step default_settings dedup_init story_a)
   \<and> unique (dedup_step default_settings (dedup_step default_settings dedup_init story_a) story_c)
       = unique (dedup_step default_settings dedup_init story_a)"
proof -
  have f: "CHECK_DUPLICATES_BY_URL default_settings" "CHECK_DUPLICATES_BY_TITLE default_settings"
    by (simp_all add: default_settings_def)
  have e: "url story_a = url story_b \<and> title story_a = title story_b
           \<and> content_hash story_a = generate_hash story_a
           \<and> content_hash story_b = generate_hash story_b"
    by (simp add: story_a_def story_b_def Article_init_def generate_hash_def Let_def)
  have s: "source story_a \<noteq> source story_b" "url story_c \<noteq> url story_a"
    by (simp_all add: story_fields)
  have m: "content_hash story_c \<in> seen_hashes (dedup_step default_settings dedup_init story_a)"
    using f by (simp add: dedup_step_def dedup_init_def Let_def story_hashes)
  note T = deduplicate_articles_idempotent [of default_settings "[story_a, story_b]" story_c
      "dedup_step default_settings dedup_init story_a" story_a story_b]
  note T0 = deduplicate_articles_idempotent [of default_settings "[story_a, story_b]" story_c
      dedup_init story_a story_b]
  have i: "deduplicate_articles default_settings (deduplicate_articles default_settings [story_a, story_b])
           = deduplicate_articles default_settings [story_a, story_b]"
    using T by blast
  have r: "dedup_step default_settings (dedup_step default_settings dedup_init story_a) story_a
           = dedup_step default_settings dedup_init story_a"
    using T0 f by blast
  have h: "seen_hashes (dedup_step default_settings (dedup_step default_settings dedup_init story_a) story_c)
             = seen_hashes (dedup_step default_settings dedup_init story_a)
           \<and> unique (dedup_step default_settings (dedup_step default_settings dedup_init story_a) story_c)
             = unique (dedup_step default_settings dedup_init story_a)"
    using T f m by blast
  have p: "deduplicate_articles default_settings [story_a, story_b] = [story_a]
           \<and> length [story_a, story_b]
               - length (deduplicate_articles default_settings [story_a, story_b]) = 1"
    using T f e by blast
  show ?thesis
    using f e s m i r h p by blast
qed

text \<open>
  The claim as the specification states it fails in two places. With both checks off
  nothing is removed: the two articles with the same URL and title both come back. And
  under the default settings an article with a recorded fingerprint but a new URL
  changes the state: its URL joins the URLs seen.
\<close>

theorem deduplicate_articles_counterexample:
  "url story_a = url story_b \<and> title story_a = title story_b
   \<and> deduplicate_articles no_checks [story_a, story_b] = [story_a, story_b]
   \<and> length (deduplicate_articles no_checks [story_a, story_b]) = 2
   \<and> content_hash story_c = content_hash story_a
   \<and> seen_urls (foldl (dedup_step default_settings) dedup_init [story_a])
       = {''https://example.com/markets''}
   \<and> seen_urls (foldl (dedup_step default_settings) dedup_init [story_a, story_c])
       = {''ttps://example.com/markets'', ''https://example.com/markets''}
   \<and> seen_urls (foldl (dedup_step default_settings) dedup_init [story_a, story_c])
       \<noteq> seen_urls (foldl (dedup_step default_settings) dedup_init [story_a])"
proof -
  have off: "\<not> CHECK_DUPLICATES_BY_URL no_checks" "\<not> CHECK_DUPLICATES_BY_TITLE no_checks"
    by (simp_all add: no_checks_def)
  have on: "CHECK_DUPLICATES_BY_URL default_settings" "CHECK_DUPLICATES_BY_TITLE default_settings"
    by (simp_all add: default_settings_def)
  have both: "deduplicate_articles no_checks [story_a, story_b] = [story_a, story_b]"
    using off by (simp add: deduplicate_articles_def dedup_step_def dedup_init_def Let_def)
  have one: "seen_urls (foldl (dedup_step default_settings) dedup_init [story_a])
             = {''https://example.com/markets''}"
    using on by (simp add: dedup_step_def dedup_init_def Let_def story_fields)
  have two: "seen_urls (foldl (dedup_step default_settings) dedup_init [story_a, story_c])
             = {''ttps://example.com/markets'', ''https://example.com/markets''}"
    using on by (simp add: dedup_step_def dedup_init_def Let_def story_fields story_hashes)
  have ne: "seen_urls (foldl (dedup_step default_settings) dedup_init [story_a, story_c])
            \<noteq> seen_urls (foldl (dedup_step default_settings) dedup_init [story_a])"
    unfolding one two by simp
  have "content_hash story_c = content_hash story_a"
    by (simp add: story_hashes)
  with both one two ne show ?thesis
    by (simp add: story_fields)
qed


section \<open>Delivery\<close>

text \<open>
  While the posts are accepted the loop goes on; the first post that raises ends it: the
  batches up to and including that one have been posted, and the run asks for a retry.
\<close>

lemma send_batches_first_failure:
  assumes "j < length batches"
    and "\<forall>i<j. accepted (backend (k + i) (make_request cfg (batches ! i)))"
    and "\<not> accepted (backend (k + j) (make_request cfg (batches ! j)))"
  shows "send_batches cfg backend k batches sent_count posted =
         (Inl (Retry (raised_by (backend (k + j) (make_request cfg (batches ! j)))) 60),
          posted @ map (make_request cfg) (take (Suc j) batches))"
  using assms
proof (induction batches arbitrary: j k sent_count posted)
  case Nil
  then show ?case by simp
next
  case (Cons batch rest)
  show ?case
  proof (cases j)
    case 0
    with Cons.prems show ?thesis
      by (cases "backend k (make_request cfg batch)") simp_all
  next
    case (Suc j')
    from Cons.prems(2) Suc have "accepted (backend (k + 0) (make_request cfg ((batch # rest) ! 0)))"
      by blast
    then obtain created where a: "backend k (make_request cfg batch) = Accepted created"
      by (cases "backend k (make_request cfg batch)") auto
    have j': "j' < length rest" using Cons.prems(1) Suc by simp
    have acc: "\<forall>i<j'. accepted (backend (Suc k + i) (make_request cfg (rest ! i)))"
    proof (intro allI impI)
      fix i assume "i < j'"
      then have "accepted (backend (k + Suc i) (make_request cfg ((batch # rest) ! Suc i)))"
        using Cons.prems(2) Suc by (metis Suc_less_eq)
      then show "accepted (backend (Suc k + i) (make_request cfg (rest ! i)))" by simp
    qed
    have fail: "\<not> accepted (backend (Suc k + j') (make_request cfg (rest ! j')))"
      using Cons.prems(3) Suc by simp
    show ?thesis
      using a Suc Cons.IH [OF j' acc fail] by simp
  qed
qed

text \<open>
  C3 (as amended). In one run the batches are posted in the order of the partition. The
  first batch whose post fails ends the run: the run returns no count but asks for the
  whole task to be run again in 60 seconds, the batches before the failed one have been
  posted once, and no batch after it has been attempted.
\<close>

theorem send_articles_stops_at_failed_batch:
  assumes "articles \<noteq> []" and "make_batches (BATCH_SIZE cfg) articles = Inr batches"
    and "j < length batches"
    and "\<forall>i<j. accepted (backend i (make_request cfg (batches ! i)))"
    and "\<not> accepted (backend j (make_request cfg (batches ! j)))"
  shows "send_articles_to_backend cfg backend articles =
         (Inl (Retry (raised_by (backend j (make_request cfg (batches ! j)))) 60),
          map (make_request cfg) (take (Suc j) batches))"
proof -
  have "send_batches cfg backend 0 batches 0 [] =
        (Inl (Retry (raised_by (backend (0 + j) (make_request cfg (batches ! j)))) 60),
         [] @ map (make_request cfg) (take (Suc j) batches))"
    using assms(3,4,5) by (intro send_batches_first_failure) auto
  with assms(1,2) show ?thesis by (simp add: send_articles_to_backend_def)
qed

theorem send_articles_stops_at_failed_batch_witness:
  "[1..<26] \<noteq> ([] :: nat list)
   \<and> make_batches (BATCH_SIZE default_settings) [1..<26] = Inr [[1..<11], [11..<21], [21..<26]]
   \<and> accepted (second_fails 0 (make_request default_settings [1..<11]))
   \<and> \<not> accepted (second_fails 1 (make_request default_settings [11..<21]))
   \<and> send_articles_to_backend default_settings second_fails [1..<26] =
       (Inl (Retry HTTPError 60),
        [make_request default_settings [1..<11], make_request default_settings [11..<21]])"
proof -
  let ?bs = "[[1..<11], [11..<21], [21..<26]] :: nat list list"
  have h1: "[1..<26] \<noteq> ([] :: nat list)" by simp
  have h2: "make_batches (BATCH_SIZE default_settings) [1..<26] = Inr ?bs"
    by code_simp
  have h3: "(1::nat) < length ?bs" by simp
  have h4: "\<forall>i<1. accepted (second_fails i (make_request default_settings (?bs ! i)))"
    by (simp add: second_fails_def)
  have h5: "\<not> accepted (second_fails 1 (make_request default_settings (?bs ! 1)))"
    by (simp add: second_fails_def)
  have r: "raised_by (second_fails 1 (make_request default_settings (?bs ! 1))) = HTTPError"
    by (simp add: second_fails_def)
  show ?thesis
    using h1 h2 h4 h5
      send_articles_stops_at_failed_batch [where cfg = default_settings and backend = second_fails
        and articles = "[1..<26]" and batches = ?bs and j = 1, OF h1 h2 h3 h4 h5]
    unfolding r by simp
qed

text \<open>
  The job of the specification: 25 articles in batches of 10, 10 and 5, and a backend
  that fails the second post. The run posts the first two batches and raises the retry;
  the third batch is not posted, and no count of 15 sent articles is returned.
\<close>

theorem send_articles_isolation_counterexample:
  "fst (send_articles_to_backend default_settings second_fails [1..<26]) = Inl (Retry HTTPError 60)
   \<and> map req_articles (snd (send_articles_to_backend default_settings second_fails [1..<26]))
       = [[1..<11], [11..<21]]
   \<and> \<not> isolation_spec (send_articles_to_backend default_settings second_fails [1..<26])
         [[1..<11], [11..<21], [21..<26]]"
  by code_simp


end
